theory Spec2Isabelle
  imports Main
begin

section \<open>JavaScript values used by the call orchestrator\<close>

text \<open>
  A property of a JavaScript object that holds a string is modelled as \<open>string option\<close>:
  \<open>None\<close> stands for an absent property, \<open>undefined\<close> or \<open>null\<close> (SQL \<open>NULL\<close> in a row).
  The empty string is the only falsy string.
\<close>

definition truthy :: "string option \<Rightarrow> bool" where
  "truthy v = (v \<noteq> None \<and> v \<noteq> Some [])"

text \<open>\<open>a || b\<close> on string-valued properties.\<close>

definition js_or :: "string option \<Rightarrow> string option \<Rightarrow> string option" where
  "js_or a b = (if truthy a then a else b)"

text \<open>\<open>a || b || ''\<close>: the chain ends in the empty string, so the result is a string.\<close>

definition js_or_empty :: "string option \<Rightarrow> string option \<Rightarrow> string" where
  "js_or_empty a b = (case js_or a (js_or b (Some [])) of Some v \<Rightarrow> v | None \<Rightarrow> [])"

text \<open>A string-valued property written where a string is needed: \<open>null\<close> reads as empty.\<close>

definition str_of :: "string option \<Rightarrow> string" where
  "str_of v = (case v of Some x \<Rightarrow> x | None \<Rightarrow> [])"

text \<open>Truthiness of a numeric column (\<open>retry_scheduled\<close>): \<open>NULL\<close> and \<open>0\<close> are falsy.\<close>

definition truthy_num :: "int option \<Rightarrow> bool" where
  "truthy_num v = (v \<noteq> None \<and> v \<noteq> Some 0)"

section \<open>Time values and the local time zone of the host\<close>

text \<open>
  A \<open>Date\<close> is its time value: milliseconds since 1970-01-01T00:00:00Z.
  \<open>toISOString\<close> and \<open>new Date(isoString)\<close> are inverse to each other on time values,
  so a timestamp column written as an ISO string is modelled by the time value itself.
\<close>

type_synonym instant = int

definition msPerHour :: int where
  "msPerHour = 3600000"

definition msPerDay :: int where
  "msPerDay = 86400000"

text \<open>
  \<open>setHours\<close>, \<open>getDate\<close> and \<open>setDate\<close> work in the local time zone of the process
  (ECMAScript \<open>LocalTime\<close> and \<open>UTC\<close>). The source names no zone, so the zone of the
  process is a parameter: \<open>tza_utc z t\<close> is the offset in force at the UTC instant \<open>t\<close>
  (\<open>LocalTZA(t, true)\<close>) and \<open>tza_local z tl\<close> the offset chosen for the local time
  value \<open>tl\<close> (\<open>LocalTZA(tl, false)\<close>).
\<close>

record zone =
  tza_utc :: "instant \<Rightarrow> int"
  tza_local :: "int \<Rightarrow> int"

definition fixed_zone :: "int \<Rightarrow> zone" where
  "fixed_zone off = \<lparr> tza_utc = (\<lambda>_. off), tza_local = (\<lambda>_. off) \<rparr>"

definition LocalTime :: "zone \<Rightarrow> instant \<Rightarrow> int" where
  "LocalTime z t = t + tza_utc z t"

definition UTC_of_local :: "zone \<Rightarrow> int \<Rightarrow> instant" where
  "UTC_of_local z lt = lt - tza_local z lt"

definition Day :: "int \<Rightarrow> int" where
  "Day t = t div msPerDay"

definition TimeWithinDay :: "int \<Rightarrow> int" where
  "TimeWithinDay t = t mod msPerDay"

text \<open>\<open>d.setHours(hour, 0, 0, 0)\<close>: same local day, local time \<open>hour:00:00.000\<close>.\<close>

definition setHours :: "zone \<Rightarrow> int \<Rightarrow> instant \<Rightarrow> instant" where
  "setHours z hour t = UTC_of_local z (Day (LocalTime z t) * msPerDay + hour * msPerHour)"

text \<open>
  \<open>d.setDate(d.getDate() + 1)\<close>: \<open>MakeDay\<close> with the day of the month plus one is the
  next local calendar day (a day past the end of the month rolls into the next month),
  and the local time within the day is kept.
\<close>

definition setDate_next :: "zone \<Rightarrow> instant \<Rightarrow> instant" where
  "setDate_next z t =
     UTC_of_local z ((Day (LocalTime z t) + 1) * msPerDay + TimeWithinDay (LocalTime z t))"

text \<open>
  Writing instants: days between 1970-01-01 and a date of the proleptic Gregorian
  calendar, and \<open>Date.UTC(year, month, day, hours, minutes, seconds)\<close> with the month
  counted from 1.
\<close>

definition days_from_civil :: "int \<Rightarrow> int \<Rightarrow> int \<Rightarrow> int" where
  "days_from_civil y m d =
     (let y' = (if m \<le> 2 then y - 1 else y);
          era = y' div 400;
          yoe = y' - era * 400;
          doy = (153 * (if m > 2 then m - 3 else m + 9) + 2) div 5 + d - 1;
          doe = yoe * 365 + yoe div 4 - yoe div 100 + doy
      in era * 146097 + doe - 719468)"

definition utc_instant :: "int \<Rightarrow> int \<Rightarrow> int \<Rightarrow> int \<Rightarrow> int \<Rightarrow> int \<Rightarrow> instant" where
  "utc_instant y m d hh mm ss =
     days_from_civil y m d * msPerDay + hh * msPerHour + mm * 60000 + ss * 1000"

text \<open>
  The zone the spec names, Europe/Rome, as one value of the parameter, under the rule in
  force since 1996: UTC+1, and UTC+2 from 01:00 UTC on the last Sunday of March until
  01:00 UTC on the last Sunday of October. \<open>civil_from_days\<close> is the date (year, month,
  day) of a day number. A day (from its 00:00) is a summer day when it lies on or after
  the last Sunday of March and before the last Sunday of October; day number 0 was a
  Thursday, so \<open>(days + 4) mod 7\<close> counts the days since the last Sunday.
\<close>

definition civil_from_days :: "int \<Rightarrow> int \<times> int \<times> int" where
  "civil_from_days days =
     (let z = days + 719468;
          era = z div 146097;
          doe = z - era * 146097;
          yoe = (doe - doe div 1460 + doe div 36524 - doe div 146096) div 365;
          doy = doe - (365 * yoe + yoe div 4 - yoe div 100);
          mp = (5 * doy + 2) div 153;
          d = doy - (153 * mp + 2) div 5 + 1;
          m = (if mp < 10 then mp + 3 else mp - 9);
          y = yoe + era * 400 + (if m \<le> 2 then 1 else 0)
      in (y, m, d))"

definition summer_day :: "int \<Rightarrow> bool" where
  "summer_day days =
     (case civil_from_days days of
        (y, m, d) \<Rightarrow>
          (3 < m \<and> m < 10)
          \<or> (m = 3 \<and> 25 \<le> d - (days + 4) mod 7)
          \<or> (m = 10 \<and> d - (days + 4) mod 7 < 25))"

definition rome_offset :: "int \<Rightarrow> int" where
  "rome_offset days = (if summer_day days then 2 * msPerHour else msPerHour)"

text \<open>
  Summer time is in force at a UTC instant from 01:00 of the first summer day on. A local
  time value reads it from 03:00 local time of that day on; the local hour that the
  change skips or repeats takes the offset in force before the change, as ECMAScript
  has it.
\<close>

definition europe_rome :: zone where
  "europe_rome =
     \<lparr> tza_utc = (\<lambda>t. rome_offset (Day (t - msPerHour))),
       tza_local = (\<lambda>lt. rome_offset (Day (lt - 3 * msPerHour))) \<rparr>"

section \<open>Rows of the two tables\<close>

text \<open>
  The object \<open>scheduleRetry\<close> receives: a row of the table \<open>calls\<close> as \<open>getCallData\<close>
  returns it, together with the alias keys \<open>to\<close>, \<open>contact_id\<close>, \<open>first_name\<close>,
  \<open>full_name\<close> and \<open>address\<close> that \<open>scheduleRetry\<close> and \<open>setCallData\<close> also read.
\<close>

record call_data =
  phone :: "string option"
  to :: "string option"
  contactId :: "string option"
  contact_id :: "string option"
  firstName :: "string option"
  first_name :: "string option"
  fullName :: "string option"
  full_name :: "string option"
  email :: "string option"
  full_address :: "string option"
  address :: "string option"
  signedUrl :: "string option"
  retry_count :: "int option"
  first_attempt_timestamp :: "instant option"
  status :: "string option"
  created_at :: "instant option"
  answeredBy :: "string option"
  conversationId :: "string option"
  retry_scheduled :: "int option"

text \<open>
  The carrier parameters serialised into \<open>call_options_json\<close>: the destination, the
  query parameters of the stream-connect URL (before URI encoding) and the two timeouts. The
  source number, the callback URLs, the subscribed events and the machine-detection
  switches are constants of the configuration.
\<close>

record call_options =
  co_to :: string
  co_twiml_params :: "(string \<times> string) list"
  co_timeout :: nat
  co_timeLimit :: nat

text \<open>A row of \<open>call_queue\<close>; the fields are the columns, prefixed with \<open>q_\<close>.\<close>

record queue_row =
  q_queue_id :: nat
  q_contact_id :: string
  q_phone_number :: string
  q_first_name :: "string option"
  q_full_name :: "string option"
  q_email :: "string option"
  q_full_address :: "string option"
  q_retry_stage :: int
  q_status :: string
  q_scheduled_at :: instant
  q_created_at :: instant
  q_first_attempt_timestamp :: "instant option"
  q_last_attempt_at :: "instant option"
  q_last_error :: "string option"
  q_call_options_json :: call_options
  q_initial_signed_url :: "string option"

record store =
  calls :: "string \<rightharpoonup> call_data"
  call_queue :: "queue_row list"
  queue_seq :: nat

section \<open>Effects and the environment\<close>

datatype notification = NonFatal | Positive

datatype call_field =
    AnsweredByF string
  | RetryScheduledF int
  | ConversationIdF "string option"

text \<open>What a handler does to the outside, in program order.\<close>

datatype effect =
    DbGetCall string
  | Sleep nat
  | DbUpdateCall string "call_field list"
  | DbSetCall string call_data
  | DbInsertQueue queue_row
  | DbMarkProcessing nat
  | DbMarkFailed nat string
  | DbDeleteQueue nat
  | CarrierFetch string
  | CarrierComplete string
  | CarrierCreate call_options
  | Notify notification string
  | Reply nat string

text \<open>The database statements whose failure the source catches or lets escape.\<close>

datatype db_op =
    GetCall
  | GetCallAgain
  | UpdateAnsweredBy
  | UpdateRetryScheduled
  | InsertQueue
  | SelectPending
  | MarkProcessing
  | SetCall
  | VerifyCall
  | DeleteQueue
  | MarkFailed

text \<open>
  The outcome of \<open>getSignedUrl\<close>: the URL, a response that is not \<open>ok\<close> (reported
  by \<open>getSignedUrl\<close> itself before it throws), or a request that fails.
\<close>

datatype signed_url_result = SignedUrl string | BadStatus | RequestFailed

text \<open>
  Everything a handler reads from outside the store: the clock, the zone of the process,
  whether each database statement succeeds, the row the initiator writes while the status
  handler sleeps, and the answers of the carrier and of the agent provider
  (\<open>None\<close>: the request fails).
\<close>

record env =
  clock :: instant
  host_zone :: zone
  db_ok :: "db_op \<Rightarrow> bool"
  row_written_during_wait :: "call_data option"
  carrier_fetch :: "string option"
  carrier_update_ok :: bool
  carrier_create :: "queue_row \<Rightarrow> string option"
  carrier_active_calls :: "nat option"
  max_active :: int
  signed_url :: signed_url_result

section \<open>The retry scheduler (\<open>scheduleRetry\<close>)\<close>

datatype schedule_config = Immediate | Delay int | NextTime int

definition MAX_TOTAL_ATTEMPTS :: int where
  "MAX_TOTAL_ATTEMPTS = 10"

definition RETRY_SCHEDULE :: "schedule_config list" where
  "RETRY_SCHEDULE =
     [Immediate, Delay 1, Immediate, NextTime 9, Immediate, NextTime 14, Immediate,
      NextTime 19, Immediate]"

text \<open>\<open>RETRY_SCHEDULE[i] || { type: 'immediate' }\<close>: an index outside the array reads \<open>undefined\<close>.\<close>

definition schedule_lookup :: "int \<Rightarrow> schedule_config" where
  "schedule_lookup i =
     (if 0 \<le> i \<and> i < int (length RETRY_SCHEDULE) then RETRY_SCHEDULE ! nat i else Immediate)"

text \<open>The branch \<open>next_time\<close>: the target is rolled to the next day when \<open>now >= target\<close>.\<close>

definition next_time :: "zone \<Rightarrow> int \<Rightarrow> instant \<Rightarrow> instant" where
  "next_time z hour now =
     (let target = setHours z hour now
      in if now \<ge> target then setDate_next z target else target)"

definition scheduled_at_base :: "zone \<Rightarrow> bool \<Rightarrow> schedule_config \<Rightarrow> instant \<Rightarrow> instant" where
  "scheduled_at_base z forceImmediate scheduleConfig now =
     (if forceImmediate \<or> scheduleConfig = Immediate then now
      else case scheduleConfig of
             Delay hours \<Rightarrow> now + hours * 60 * 60 * 1000
           | NextTime hour \<Rightarrow> next_time z hour now
           | Immediate \<Rightarrow> now)"

record retry_options =
  reason :: "string option"
  forceImmediate :: bool

definition safeTo :: "call_data \<Rightarrow> string option" where
  "safeTo cd = js_or (phone cd) (js_or (to cd) None)"

definition safeContactId :: "call_data \<Rightarrow> string option" where
  "safeContactId cd = js_or (contactId cd) (js_or (contact_id cd) None)"

definition currentAttemptNumber :: "call_data \<Rightarrow> int" where
  "currentAttemptNumber cd = (case retry_count cd of Some n \<Rightarrow> n | None \<Rightarrow> 0)"

text \<open>The values of the \<open>INSERT INTO call_queue\<close> statement of \<open>scheduleRetry\<close>.\<close>

definition retry_row :: "env \<Rightarrow> call_data \<Rightarrow> retry_options \<Rightarrow> nat \<Rightarrow> queue_row" where
  "retry_row e cd opts qid =
     (let nextAttemptNumberForDB = currentAttemptNumber cd + 1;
          scheduleConfig = schedule_lookup (nextAttemptNumberForDB - 1);
          firstAttemptTimestamp =
            (case first_attempt_timestamp cd of Some t \<Rightarrow> t | None \<Rightarrow> clock e);
          safeFirstName = js_or_empty (firstName cd) (first_name cd);
          safeFullName = js_or_empty (fullName cd) (full_name cd);
          safeEmail = js_or_empty (email cd) None;
          safeAddress = js_or_empty (full_address cd) (address cd)
      in \<lparr> q_queue_id = qid,
           q_contact_id = str_of (safeContactId cd),
           q_phone_number = str_of (safeTo cd),
           q_first_name = Some safeFirstName,
           q_full_name = Some safeFullName,
           q_email = Some safeEmail,
           q_full_address = Some safeAddress,
           q_retry_stage = nextAttemptNumberForDB,
           q_status = ''pending'',
           q_scheduled_at =
             scheduled_at_base (host_zone e) (forceImmediate opts) scheduleConfig (clock e),
           q_created_at = clock e,
           q_first_attempt_timestamp = Some firstAttemptTimestamp,
           q_last_attempt_at = None,
           q_last_error = None,
           q_call_options_json =
             \<lparr> co_to = str_of (safeTo cd),
               co_twiml_params =
                 [(''firstName'', safeFirstName), (''fullName'', safeFullName),
                  (''email'', safeEmail), (''phone'', str_of (safeTo cd)),
                  (''contactId'', str_of (safeContactId cd)), (''full_address'', safeAddress)],
               co_timeout = 25, co_timeLimit = 900 \<rparr>,
           q_initial_signed_url = signedUrl cd \<rparr>)"

text \<open>\<open>INSERT INTO call_queue\<close>: the row gets the next value of the AUTOINCREMENT sequence.\<close>

definition insert_queue :: "queue_row \<Rightarrow> store \<Rightarrow> store" where
  "insert_queue row s =
     s\<lparr> call_queue := call_queue s @ [row\<lparr> q_queue_id := Suc (queue_seq s) \<rparr>],
        queue_seq := Suc (queue_seq s) \<rparr>"

definition scheduleRetry ::
  "env \<Rightarrow> call_data \<Rightarrow> string \<Rightarrow> retry_options \<Rightarrow> store \<Rightarrow> store \<times> effect list" where
  "scheduleRetry e cd failedCallSid opts s =
     (if currentAttemptNumber cd \<ge> MAX_TOTAL_ATTEMPTS - 1
      then (s, [Notify NonFatal ''Outgoing Call: Max Attempts Reached''])
      else if \<not> truthy (safeTo cd) \<or> \<not> truthy (safeContactId cd)
      then (s, [Notify NonFatal ''Outgoing Call: Retry Scheduling Skipped - Missing Data''])
      else let row = retry_row e cd opts (Suc (queue_seq s))
           in if db_ok e InsertQueue
              then (insert_queue row s, [DbInsertQueue row])
              else (s, [DbInsertQueue row,
                        Notify NonFatal ''Outgoing Call: Retry Scheduling Failed'']))"

section \<open>The call-state registry (\<open>callDataDb.js\<close>)\<close>

definition getCallData :: "string \<Rightarrow> store \<Rightarrow> call_data option" where
  "getCallData callSid s = (if callSid = [] then None else calls s callSid)"

text \<open>
  The row that \<open>INSERT OR REPLACE INTO calls\<close> writes for a data object: \<open>to\<close> becomes
  \<open>phone\<close>, keys that are no column are dropped, and a column that gets no value takes
  its default (\<open>0\<close> for \<open>retry_count\<close> and \<open>retry_scheduled\<close>, \<open>NULL\<close> otherwise).
\<close>

definition call_row_of :: "call_data \<Rightarrow> call_data" where
  "call_row_of d =
     \<lparr> phone = (case to d of Some t \<Rightarrow> Some t | None \<Rightarrow> phone d),
       to = None,
       contactId = contactId d,
       contact_id = None,
       firstName = firstName d,
       first_name = None,
       fullName = fullName d,
       full_name = None,
       email = email d,
       full_address = full_address d,
       address = None,
       signedUrl = signedUrl d,
       retry_count = (case retry_count d of Some n \<Rightarrow> Some n | None \<Rightarrow> Some 0),
       first_attempt_timestamp = first_attempt_timestamp d,
       status = status d,
       created_at = created_at d,
       answeredBy = answeredBy d,
       conversationId = conversationId d,
       retry_scheduled = (case retry_scheduled d of Some n \<Rightarrow> Some n | None \<Rightarrow> Some 0) \<rparr>"

definition setCallData :: "string \<Rightarrow> call_data \<Rightarrow> store \<Rightarrow> store" where
  "setCallData callSid d s =
     (if callSid = [] then s else s\<lparr> calls := (calls s)(callSid \<mapsto> call_row_of d) \<rparr>)"

fun apply_field :: "call_field \<Rightarrow> call_data \<Rightarrow> call_data" where
  "apply_field (AnsweredByF a) r = r\<lparr> answeredBy := Some a \<rparr>"
| "apply_field (RetryScheduledF n) r = r\<lparr> retry_scheduled := Some n \<rparr>"
| "apply_field (ConversationIdF c) r = r\<lparr> conversationId := c \<rparr>"

text \<open>\<open>UPDATE calls SET ... WHERE callSid = ?\<close>: no row, no change.\<close>

definition updateCallData :: "string \<Rightarrow> call_field list \<Rightarrow> store \<Rightarrow> store" where
  "updateCallData callSid dataToUpdate s =
     (if callSid = [] \<or> dataToUpdate = [] then s
      else case calls s callSid of
             None \<Rightarrow> s
           | Some r \<Rightarrow> s\<lparr> calls := (calls s)(callSid \<mapsto> fold apply_field dataToUpdate r) \<rparr>)"

section \<open>The status callback handler (\<open>POST /call-status\<close>)\<close>

record status_callback =
  CallSid :: string
  CallStatus :: string
  AnsweredBy :: "string option"
  To :: "string option"

definition machineDetectionStatuses :: "string list" where
  "machineDetectionStatuses =
     [''machine_start'', ''fax'', ''machine_beep'', ''machine_end_silence'',
      ''machine_end_other'', ''machine_end_beep'']"

definition lower_char :: "char \<Rightarrow> char" where
  "lower_char c =
     (case map_of (zip ''ABCDEFGHIJKLMNOPQRSTUVWXYZ'' ''abcdefghijklmnopqrstuvwxyz'') c of
        Some l \<Rightarrow> l
      | None \<Rightarrow> c)"

definition toLowerCase :: "string \<Rightarrow> string" where
  "toLowerCase v = map lower_char v"

text \<open>\<open>x && machineDetectionStatuses.includes(String(x).toLowerCase())\<close>\<close>

definition is_machine :: "string option \<Rightarrow> bool" where
  "is_machine x =
     (case x of
        None \<Rightarrow> False
      | Some v \<Rightarrow> v \<noteq> [] \<and> toLowerCase v \<in> set machineDetectionStatuses)"

definition isMachineDetected :: "status_callback \<Rightarrow> call_data \<Rightarrow> bool" where
  "isMachineDetected req call = (is_machine (AnsweredBy req) \<or> is_machine (answeredBy call))"

definition isRetryableFailure :: "status_callback \<Rightarrow> call_data \<Rightarrow> bool" where
  "isRetryableFailure req call =
     ((CallStatus req \<in> set [''completed'', ''canceled''] \<and> isMachineDetected req call)
      \<or> CallStatus req = ''no-answer''
      \<or> CallStatus req = ''busy''
      \<or> CallStatus req = ''failed'')"

text \<open>
  The block that persists a changed \<open>AnsweredBy\<close>; it returns the store, the local
  object \<open>call\<close> and the effects. A failed update is caught and reported.
\<close>

definition store_answered_by ::
  "env \<Rightarrow> status_callback \<Rightarrow> call_data \<Rightarrow> store \<Rightarrow> store \<times> call_data \<times> effect list" where
  "store_answered_by e req call s =
     (case AnsweredBy req of
        None \<Rightarrow> (s, call, [])
      | Some a \<Rightarrow>
          if a = [] \<or> Some a = answeredBy call then (s, call, [])
          else if db_ok e UpdateAnsweredBy
          then (updateCallData (CallSid req) [AnsweredByF a] s,
                call\<lparr> answeredBy := Some a \<rparr>,
                [DbUpdateCall (CallSid req) [AnsweredByF a]])
          else (s, call,
                [DbUpdateCall (CallSid req) [AnsweredByF a],
                 Notify NonFatal ''Outgoing Call: Failed to Update AnsweredBy'']))"

definition terminal_statuses :: "string list" where
  "terminal_statuses = [''completed'', ''canceled'', ''failed'']"

text \<open>
  The \<open>try\<close> block of the machine-detected branch: set the flag, fetch the call from
  the carrier, end it unless it is terminal already. Any failure inside is caught and
  reported, and the handler goes on to \<open>scheduleRetry\<close>.
\<close>

definition end_call_after_machine :: "env \<Rightarrow> string \<Rightarrow> store \<Rightarrow> store \<times> effect list" where
  "end_call_after_machine e sid s =
     (let failed = Notify NonFatal ''Outgoing Call: Failed to End Call After Machine Detection''
      in if \<not> db_ok e UpdateRetryScheduled
         then (s, [DbUpdateCall sid [RetryScheduledF 1], failed])
         else let s' = updateCallData sid [RetryScheduledF 1] s
              in case carrier_fetch e of
                   None \<Rightarrow> (s', [DbUpdateCall sid [RetryScheduledF 1], CarrierFetch sid, failed])
                 | Some st \<Rightarrow>
                     if st \<notin> set terminal_statuses
                     then if carrier_update_ok e
                          then (s', [DbUpdateCall sid [RetryScheduledF 1], CarrierFetch sid,
                                     CarrierComplete sid])
                          else (s', [DbUpdateCall sid [RetryScheduledF 1], CarrierFetch sid,
                                     CarrierComplete sid, failed])
                     else (s', [DbUpdateCall sid [RetryScheduledF 1], CarrierFetch sid]))"

text \<open>
  The handler from the latch check on. \<open>call\<close> is the object read by \<open>getCallData\<close>;
  \<open>s\<close> is the store at the time the rest of the handler runs.
\<close>

definition handle_call ::
  "env \<Rightarrow> status_callback \<Rightarrow> call_data \<Rightarrow> store \<Rightarrow> store \<times> effect list" where
  "handle_call e req call s =
     (if truthy_num (retry_scheduled call)
      then (s, [Reply 200 ''OK. Retry already handled.''])
      else
        case store_answered_by e req call s of (s1, call1, tr1) \<Rightarrow>
          if isMachineDetected req call \<and> CallStatus req \<notin> set terminal_statuses
          then
            (case end_call_after_machine e (CallSid req) s1 of (s2, tr2) \<Rightarrow>
               case scheduleRetry e call1 (CallSid req)
                      \<lparr> reason = Some ''machine_detected'', forceImmediate = False \<rparr> s2
               of (s3, tr3) \<Rightarrow>
                 (s3, tr1 @ tr2 @ tr3 @
                      [Reply 200 ''OK. Machine detected, call ended, retry scheduled.'']))
          else if isRetryableFailure req call
          then
            (if db_ok e UpdateRetryScheduled
             then
               (case scheduleRetry e call1 (CallSid req)
                       \<lparr> reason = Some ''retryable_failure'', forceImmediate = False \<rparr>
                       (updateCallData (CallSid req) [RetryScheduledF 1] s1)
                of (s3, tr3) \<Rightarrow>
                  (s3, tr1 @ [DbUpdateCall (CallSid req) [RetryScheduledF 1]] @ tr3 @
                       [Reply 200 ''OK. Retryable failure, retry scheduled.'']))
             else (s1, tr1 @ [DbUpdateCall (CallSid req) [RetryScheduledF 1],
                              Reply 500 ''Internal Server Error'']))
          else if CallStatus req = ''completed'' \<and> \<not> isMachineDetected req call
          then (s1, tr1 @ [Notify Positive ''Outgoing Call: Successful Human Connection'',
                           Reply 200 ''OK. Human answered, no retry.''])
          else if CallStatus req \<in> set [''completed'', ''canceled'']
                  \<and> \<not> isMachineDetected req call
          then (s1, tr1 @ [Reply 200 ''OK. Call ended, no retry.''])
          else (s1, tr1 @ [Reply 200 ''OK'']))"

text \<open>What the initiator may have written for this call while the handler slept.\<close>

definition store_after_wait :: "env \<Rightarrow> string \<Rightarrow> store \<Rightarrow> store" where
  "store_after_wait e sid s =
     (case row_written_during_wait e of None \<Rightarrow> s | Some d \<Rightarrow> setCallData sid d s)"

text \<open>
  \<open>getCallData\<close> rejects when its query fails; without a call id it returns \<open>null\<close>
  before it opens the database.
\<close>

definition lookup_fails :: "env \<Rightarrow> db_op \<Rightarrow> string \<Rightarrow> bool" where
  "lookup_fails e op sid = (sid \<noteq> [] \<and> \<not> db_ok e op)"

definition call_status :: "env \<Rightarrow> status_callback \<Rightarrow> store \<Rightarrow> store \<times> effect list" where
  "call_status e req s =
     (let sid = CallSid req
      in if lookup_fails e GetCall sid
         then (s, [DbGetCall sid, Reply 500 ''Internal Server Error''])
         else
           case getCallData sid s of
             Some call \<Rightarrow>
               (case handle_call e req call s of (s', tr) \<Rightarrow> (s', DbGetCall sid # tr))
           | None \<Rightarrow>
               let s_w = store_after_wait e sid s
               in if lookup_fails e GetCallAgain sid
                  then (s_w, [DbGetCall sid, Sleep 2000, DbGetCall sid,
                              Reply 500 ''Internal Server Error''])
                  else
                    (case getCallData sid s_w of
                       None \<Rightarrow>
                         (s_w, [DbGetCall sid, Sleep 2000, DbGetCall sid,
                                Notify NonFatal ''Outgoing Call: Status Data Missing'',
                                Reply 200 ''OK. No call data found in calls table after retry.''])
                     | Some call \<Rightarrow>
                         (case handle_call e req call s_w of (s', tr) \<Rightarrow>
                            (s', [DbGetCall sid, Sleep 2000, DbGetCall sid] @ tr))))"

section \<open>The queue processor (\<open>processCallQueue\<close>)\<close>

text \<open>
  \<open>UPDATE call_queue SET status = 'processing', last_attempt_at = ?
   WHERE queue_id = ? AND status = 'pending'\<close>
\<close>

definition mark_processing :: "instant \<Rightarrow> nat \<Rightarrow> store \<Rightarrow> store" where
  "mark_processing now qid s =
     s\<lparr> call_queue :=
          map (\<lambda>r. if q_queue_id r = qid \<and> q_status r = ''pending''
                    then r\<lparr> q_status := ''processing'', q_last_attempt_at := Some now \<rparr>
                    else r)
              (call_queue s) \<rparr>"

text \<open>
  The number of rows that statement changes (\<open>this.changes\<close>, which \<open>run\<close> resolves
  with). The loop of \<open>processCallQueue\<close> does not read it.
\<close>

definition mark_processing_changes :: "nat \<Rightarrow> store \<Rightarrow> nat" where
  "mark_processing_changes qid s =
     length (filter (\<lambda>r. q_queue_id r = qid \<and> q_status r = ''pending'') (call_queue s))"

text \<open>\<open>UPDATE call_queue SET status = 'failed', last_error = ? WHERE queue_id = ?\<close>\<close>

definition mark_failed :: "nat \<Rightarrow> string \<Rightarrow> store \<Rightarrow> store" where
  "mark_failed qid msg s =
     s\<lparr> call_queue :=
          map (\<lambda>r. if q_queue_id r = qid
                    then r\<lparr> q_status := ''failed'', q_last_error := Some msg \<rparr>
                    else r)
              (call_queue s) \<rparr>"

text \<open>\<open>DELETE FROM call_queue WHERE queue_id = ?\<close>\<close>

definition delete_queue :: "nat \<Rightarrow> store \<Rightarrow> store" where
  "delete_queue qid s = s\<lparr> call_queue := filter (\<lambda>r. q_queue_id r \<noteq> qid) (call_queue s) \<rparr>"

text \<open>The object that the loop passes to \<open>setCallData\<close> right after the call is created.\<close>

definition initial_call_data :: "env \<Rightarrow> queue_row \<Rightarrow> call_data" where
  "initial_call_data e callJob =
     \<lparr> phone = None,
       to = Some (q_phone_number callJob),
       contactId = Some (q_contact_id callJob),
       contact_id = None,
       firstName = q_first_name callJob,
       first_name = None,
       fullName = q_full_name callJob,
       full_name = None,
       email = q_email callJob,
       full_address = q_full_address callJob,
       address = None,
       signedUrl = q_initial_signed_url callJob,
       retry_count = Some (q_retry_stage callJob),
       first_attempt_timestamp = q_first_attempt_timestamp callJob,
       status = Some ''initiated'',
       created_at = Some (clock e),
       answeredBy = None,
       conversationId = None,
       retry_scheduled = None \<rparr>"

text \<open>The \<open>catch (callError)\<close> block: mark the job failed; a failure of that update is logged.\<close>

definition fail_job :: "env \<Rightarrow> nat \<Rightarrow> string \<Rightarrow> store \<Rightarrow> effect list \<Rightarrow> store \<times> effect list" where
  "fail_job e qid msg s tr =
     (if db_ok e MarkFailed
      then (mark_failed qid msg s, tr @ [DbMarkFailed qid msg])
      else (s, tr @ [DbMarkFailed qid msg]))"

text \<open>
  One round of the loop \<open>for (const callJob of pendingCalls)\<close>. \<open>callJob\<close> is the row
  as the \<open>SELECT\<close> returned it; \<open>s\<close> is the store when the round runs.
\<close>

definition process_job :: "env \<Rightarrow> queue_row \<Rightarrow> store \<Rightarrow> store \<times> effect list" where
  "process_job e callJob s =
     (let qid = q_queue_id callJob;
          callOptions = q_call_options_json callJob;
          d = initial_call_data e callJob
      in if \<not> db_ok e MarkProcessing
         then (s, [DbMarkProcessing qid,
                   Notify NonFatal ''Queue Processor: Failed to mark job as processing''])
         else
           let s1 = mark_processing (clock e) qid s
           in case carrier_create e callJob of
                None \<Rightarrow>
                  fail_job e qid ''Unknown call initiation error'' s1
                    [DbMarkProcessing qid, CarrierCreate callOptions]
              | Some sid \<Rightarrow>
                  if \<not> db_ok e SetCall
                  then fail_job e qid ''Error setting call data'' s1
                         [DbMarkProcessing qid, CarrierCreate callOptions, DbSetCall sid d,
                          Notify NonFatal ''Queue Processor: Critical - Failed to Store Call Data'']
                  else
                    let s2 = setCallData sid d s1
                    in if \<not> db_ok e VerifyCall \<or> getCallData sid s2 = None
                       then fail_job e qid ''Call data verification failed'' s2
                              [DbMarkProcessing qid, CarrierCreate callOptions, DbSetCall sid d,
                               DbGetCall sid,
                               Notify NonFatal
                                 ''Queue Processor: Critical - Failed to Store Call Data'']
                       else if \<not> db_ok e DeleteQueue
                       then fail_job e qid ''Error deleting job'' s2
                              [DbMarkProcessing qid, CarrierCreate callOptions, DbSetCall sid d,
                               DbGetCall sid, DbDeleteQueue qid]
                       else (delete_queue qid s2,
                             [DbMarkProcessing qid, CarrierCreate callOptions, DbSetCall sid d,
                              DbGetCall sid, DbDeleteQueue qid]))"

fun process_jobs :: "env \<Rightarrow> queue_row list \<Rightarrow> store \<Rightarrow> store \<times> effect list" where
  "process_jobs e [] s = (s, [])"
| "process_jobs e (callJob # rest) s =
     (case process_job e callJob s of (s1, tr1) \<Rightarrow>
        case process_jobs e rest s1 of (s2, tr2) \<Rightarrow> (s2, tr1 @ tr2))"

text \<open>A failed query counts as a full carrier (\<open>return MAX_ACTIVE\<close>).\<close>

definition countActiveTwilioCalls :: "env \<Rightarrow> int" where
  "countActiveTwilioCalls e =
     (case carrier_active_calls e of
        None \<Rightarrow> max_active e
      | Some n \<Rightarrow> min (int n) (max_active e + 5))"

text \<open>
  \<open>SELECT * FROM call_queue WHERE status = 'pending' AND scheduled_at <= ?
   ORDER BY scheduled_at ASC LIMIT ?\<close>
\<close>

definition select_pending :: "instant \<Rightarrow> int \<Rightarrow> store \<Rightarrow> queue_row list" where
  "select_pending now availableSlots s =
     take (nat availableSlots)
       (sort_key q_scheduled_at
          (filter (\<lambda>r. q_status r = ''pending'' \<and> q_scheduled_at r \<le> now) (call_queue s)))"

definition processCallQueue :: "env \<Rightarrow> store \<Rightarrow> store \<times> effect list" where
  "processCallQueue e s =
     (let availableSlots = max_active e - countActiveTwilioCalls e
      in if availableSlots \<le> 0 then (s, [])
         else if \<not> db_ok e SelectPending then (s, [])
         else process_jobs e (select_pending (clock e) availableSlots s) s)"

section \<open>The ingress (\<open>POST /outbound-call\<close>)\<close>

text \<open>The JSON body is a dictionary from keys to strings.\<close>

type_synonym body = "string \<rightharpoonup> string"

text \<open>\<open>a || b || ... || z\<close>: the first truthy operand, or the last one.\<close>

fun js_chain :: "string option list \<Rightarrow> string option" where
  "js_chain [] = None"
| "js_chain [a] = a"
| "js_chain (a # rest) = js_or a (js_chain rest)"

text \<open>
  The row of the first attempt. The parameter \<open>lastName\<close> of the stream-connect URL, derived
  from the names by string slicing, is left out of \<open>co_twiml_params\<close>.
\<close>

definition initial_row :: "env \<Rightarrow> body \<Rightarrow> string \<Rightarrow> nat \<Rightarrow> queue_row" where
  "initial_row e b signedUrl' qid =
     (let toPhoneValue = js_chain [b ''phone'', b ''phoneNumber'', b ''phone_number'', b ''Phone''];
          contactId' = js_chain [b ''contact_id'', b ''contactId'', b ''contact_id'', b ''id'', b ''Id''];
          firstName' = js_chain [b ''first_name'', b ''firstName'', b ''first_name'', b ''FirstName''];
          fullName' = js_chain [b ''full_name'', b ''fullName'', b ''full_name'', b ''name'', b ''Name''];
          emailValue = js_chain [b ''email'', b ''Email''];
          address' = js_chain [b ''full_address'', b ''full_address'', b ''fullAddress'',
                               b ''address'', Some []]
      in \<lparr> q_queue_id = qid,
           q_contact_id = str_of contactId',
           q_phone_number = str_of toPhoneValue,
           q_first_name = firstName',
           q_full_name = fullName',
           q_email = emailValue,
           q_full_address = address',
           q_retry_stage = 0,
           q_status = ''pending'',
           q_scheduled_at = clock e,
           q_created_at = clock e,
           q_first_attempt_timestamp = Some (clock e),
           q_last_attempt_at = None,
           q_last_error = None,
           q_call_options_json =
             \<lparr> co_to = str_of toPhoneValue,
               co_twiml_params =
                 [(''firstName'', str_of firstName'), (''fullName'', str_of fullName'),
                  (''email'', str_of emailValue), (''phone'', str_of toPhoneValue),
                  (''contactId'', str_of contactId'), (''full_address'', str_of address')],
               co_timeout = 25, co_timeLimit = 900 \<rparr>,
           q_initial_signed_url = Some signedUrl' \<rparr>)"

definition outbound_call :: "env \<Rightarrow> body \<Rightarrow> store \<Rightarrow> store \<times> effect list" where
  "outbound_call e b s =
     (let toPhoneValue = js_chain [b ''phone'', b ''phoneNumber'', b ''phone_number'', b ''Phone''];
          contactId' = js_chain [b ''contact_id'', b ''contactId'', b ''contact_id'', b ''id'', b ''Id'']
      in if \<not> truthy toPhoneValue \<or> \<not> truthy contactId'
         then (s, [Notify NonFatal ''Outbound Call: Missing Parameters'',
                   Reply 400 ''phone and contactId are required''])
         else
           case signed_url e of
             BadStatus \<Rightarrow>
               (s, [Notify NonFatal ''ElevenLabs Signed URL Failure'',
                    Notify NonFatal ''Outbound Call: Initial Queuing Failed'',
                    Reply 500 ''Failed to get signed URL from ElevenLabs API''])
           | RequestFailed \<Rightarrow>
               (s, [Notify NonFatal ''Outbound Call: Initial Queuing Failed'',
                    Reply 500 ''request failed''])
           | SignedUrl u \<Rightarrow>
               let row = initial_row e b u (Suc (queue_seq s))
               in if db_ok e InsertQueue
                  then (insert_queue row s,
                        [DbInsertQueue row,
                         Notify Positive ''Outgoing Call Successfully Queued'',
                         Reply 202 ''Call successfully queued for processing.''])
                  else (s, [DbInsertQueue row,
                            Notify NonFatal ''Outbound Call: Initial Queuing Failed'',
                            Reply 500 ''database error'']))"

section \<open>The media bridge (\<open>outbound-media-stream\<close>)\<close>

datatype ready_state = CONNECTING | OPEN | CLOSING | CLOSED

text \<open>
  \<open>connectionState\<close> with the \<open>readyState\<close> of the two sockets: \<open>elevenLabsWs\<close> is
  \<open>None\<close> while the field is \<open>null\<close>; \<open>ws\<close> is the carrier media socket.
\<close>

record connectionState =
  streamSid :: "string option"
  callSid :: "string option"
  elevenLabsWs :: "ready_state option"
  ws :: ready_state

text \<open>
  A \<open>start\<close> message carries the stream id and the call id; its third argument is the
  signed URL that \<open>setupElevenLabs\<close> obtains (\<open>None\<close>: it throws).
\<close>

datatype twilio_message =
    Start string string "string option"
  | Media string
  | Stop
  | OtherEvent string
  | Malformed

datatype agent_message =
    InitiationMetadata "string option"
  | Audio "string option"
  | Interruption
  | Ping "string option"
  | OtherMessage
  | MalformedMessage

datatype bridge_event =
    TwilioMessage twilio_message
  | TwilioClose
  | TwilioError
  | AgentOpen
  | AgentMessage agent_message
  | AgentError
  | AgentClosed int

datatype bridge_effect =
    AgentConnect string
  | AgentSend string
  | AgentClose
  | CarrierSend string
  | SaveConversationId string "string option"
  | BridgeNotify notification string

text \<open>\<open>elevenLabsWs?.readyState === WebSocket.OPEN && elevenLabsWs.close()\<close>\<close>

definition close_agent_if_open :: "connectionState \<Rightarrow> connectionState \<times> bridge_effect list" where
  "close_agent_if_open st =
     (if elevenLabsWs st = Some OPEN
      then (st\<lparr> elevenLabsWs := Some CLOSING \<rparr>, [AgentClose])
      else (st, []))"

fun on_twilio_message :: "connectionState \<Rightarrow> twilio_message \<Rightarrow> connectionState \<times> bridge_effect list" where
  "on_twilio_message st (Start sSid cSid url) =
     (let st1 = st\<lparr> streamSid := Some sSid, callSid := Some cSid \<rparr>
      in case url of
           None \<Rightarrow>
             (st1, [BridgeNotify Positive ''Twilio: Media Stream Started'',
                    BridgeNotify NonFatal ''ElevenLabs: Setup Error''])
         | Some u \<Rightarrow>
             (st1\<lparr> elevenLabsWs := Some CONNECTING \<rparr>,
              [BridgeNotify Positive ''Twilio: Media Stream Started'', AgentConnect u]))"
| "on_twilio_message st (Media payload) =
     (if elevenLabsWs st = Some OPEN then (st, [AgentSend ''user_audio'']) else (st, []))"
| "on_twilio_message st Stop = close_agent_if_open st"
| "on_twilio_message st (OtherEvent ev) = (st, [])"
| "on_twilio_message st Malformed =
     (st, [BridgeNotify NonFatal ''Twilio: Error Processing WebSocket Message''])"

fun on_agent_message :: "connectionState \<Rightarrow> agent_message \<Rightarrow> connectionState \<times> bridge_effect list" where
  "on_agent_message st (InitiationMetadata conversationId') =
     (if truthy (callSid st)
      then (st, [SaveConversationId (str_of (callSid st)) conversationId'])
      else (st, [BridgeNotify NonFatal ''ElevenLabs: Missing CallSid for ConversationId'']))"
| "on_agent_message st (Audio payload) =
     (if truthy (streamSid st) \<and> truthy payload \<and> ws st = OPEN
      then (st, [CarrierSend ''media''])
      else (st, []))"
| "on_agent_message st Interruption =
     (if truthy (streamSid st) then (st, [CarrierSend ''clear'']) else (st, []))"
| "on_agent_message st (Ping event_id) =
     (if truthy event_id \<and> elevenLabsWs st = Some OPEN
      then (st, [AgentSend ''pong''])
      else (st, []))"
| "on_agent_message st OtherMessage = (st, [])"
| "on_agent_message st MalformedMessage =
     (st, [BridgeNotify NonFatal ''ElevenLabs: Error Processing Message''])"

text \<open>
  One event of either socket: the library moves the \<open>readyState\<close> of the socket the
  event belongs to, then the listener registered by the bridge runs.
\<close>

fun bridge_step :: "connectionState \<Rightarrow> bridge_event \<Rightarrow> connectionState \<times> bridge_effect list" where
  "bridge_step st (TwilioMessage m) = on_twilio_message st m"
| "bridge_step st TwilioClose = close_agent_if_open (st\<lparr> ws := CLOSED \<rparr>)"
| "bridge_step st TwilioError = (st, [BridgeNotify NonFatal ''WebSocket: Error''])"
| "bridge_step st AgentOpen =
     (st\<lparr> elevenLabsWs := Some OPEN \<rparr>,
      [BridgeNotify Positive ''ElevenLabs: WebSocket Connection Established'',
       AgentSend ''conversation_initiation_client_data''])"
| "bridge_step st (AgentMessage m) = on_agent_message st m"
| "bridge_step st AgentError = (st, [BridgeNotify NonFatal ''ElevenLabs: WebSocket Error''])"
| "bridge_step st (AgentClosed code) =
     (st\<lparr> elevenLabsWs := Some CLOSED \<rparr>,
      if code \<noteq> 1000
      then [BridgeNotify NonFatal ''ElevenLabs: WebSocket Unexpected Close'']
      else [])"

text \<open>The effects of the bridge that act on the carrier media socket.\<close>

fun on_carrier_socket :: "bridge_effect \<Rightarrow> bool" where
  "on_carrier_socket (CarrierSend _) = True"
| "on_carrier_socket _ = False"

section \<open>The system as a whole\<close>

definition empty_store :: store where
  "empty_store = \<lparr> calls = Map.empty, call_queue = [], queue_seq = 0 \<rparr>"

text \<open>
  The stores the three entry points can produce from an empty database, each request
  and each round of the processor running to its end before the next one starts. The
  bridge adds its one write (\<open>conversationId\<close>).
\<close>

inductive reachable :: "store \<Rightarrow> bool" where
  reachable_init: "reachable empty_store"
| reachable_enqueue: "reachable s \<Longrightarrow> reachable (fst (outbound_call e b s))"
| reachable_tick: "reachable s \<Longrightarrow> reachable (fst (processCallQueue e s))"
| reachable_status:
    "reachable s \<Longrightarrow> row_written_during_wait e = None \<Longrightarrow> reachable (fst (call_status e req s))"
| reachable_bridge: "reachable s \<Longrightarrow> reachable (updateCallData sid [ConversationIdF c] s)"

text \<open>
  A retry sequence, from its first queue entry: the entries and the rows of \<open>calls\<close>
  that descend from it. A queue entry is dispatched into a row of \<open>calls\<close>
  (\<open>process_job\<close>), a row is patched by \<open>updateCallData\<close>, \<open>scheduleRetry\<close> turns a row
  into the next queue entry, and the processor rewrites the status columns of an entry.
\<close>

inductive seq_entry :: "queue_row \<Rightarrow> queue_row \<Rightarrow> bool"
  and seq_call :: "queue_row \<Rightarrow> call_data \<Rightarrow> bool"
  for first :: queue_row where
  seq_first: "seq_entry first first"
| seq_queue_update:
    "seq_entry first q \<Longrightarrow>
     seq_entry first (q\<lparr> q_queue_id := i, q_status := st, q_last_attempt_at := la,
                         q_last_error := le \<rparr>)"
| seq_dispatch:
    "seq_entry first q \<Longrightarrow> DbSetCall sid d \<in> set (snd (process_job e q s)) \<Longrightarrow>
     seq_call first (call_row_of d)"
| seq_call_update: "seq_call first r \<Longrightarrow> seq_call first (apply_field f r)"
| seq_retry:
    "seq_call first r \<Longrightarrow> DbInsertQueue q \<in> set (snd (scheduleRetry e r sid opts s)) \<Longrightarrow>
     seq_entry first q"

text \<open>Callbacks handled one after the other, each to its end.\<close>

fun run_callbacks :: "(env \<times> status_callback) list \<Rightarrow> store \<Rightarrow> store \<times> effect list" where
  "run_callbacks [] s = (s, [])"
| "run_callbacks ((e, req) # rest) s =
     (case call_status e req s of (s1, tr1) \<Rightarrow>
        case run_callbacks rest s1 of (s2, tr2) \<Rightarrow> (s2, tr1 @ tr2))"

text \<open>The effects that are a lookup of a call or a sleep.\<close>

fun is_lookup_or_sleep :: "effect \<Rightarrow> bool" where
  "is_lookup_or_sleep (DbGetCall sid) = True"
| "is_lookup_or_sleep (Sleep n) = True"
| "is_lookup_or_sleep _ = False"

fun is_queue_insert :: "effect \<Rightarrow> bool" where
  "is_queue_insert (DbInsertQueue row) = True"
| "is_queue_insert _ = False"

text \<open>
  The bounds kept by every store the system reaches: the attempt number of a queue entry
  and of a row of \<open>calls\<close> lies between 0 and \<open>MAX_TOTAL_ATTEMPTS - 1\<close>.
\<close>

definition store_inv :: "store \<Rightarrow> bool" where
  "store_inv s =
     ((\<forall>q \<in> set (call_queue s). 0 \<le> q_retry_stage q \<and> q_retry_stage q \<le> MAX_TOTAL_ATTEMPTS - 1)
      \<and> (\<forall>sid r. calls s sid = Some r \<longrightarrow>
             0 \<le> currentAttemptNumber r \<and> currentAttemptNumber r \<le> MAX_TOTAL_ATTEMPTS - 1))"

text \<open>The latch of a call as the store holds it.\<close>

definition latched :: "string \<Rightarrow> store \<Rightarrow> bool" where
  "latched sid s = (case calls s sid of None \<Rightarrow> False | Some r \<Rightarrow> truthy_num (retry_scheduled r))"

definition count_inserts :: "effect list \<Rightarrow> nat" where
  "count_inserts tr = length (filter is_queue_insert tr)"

text \<open>The effects that precede the first insert into \<open>call_queue\<close>.\<close>

definition before_insert :: "effect list \<Rightarrow> effect list" where
  "before_insert tr = takeWhile (\<lambda>x. \<not> is_queue_insert x) tr"

text \<open>The condition of the machine-detected branch of the status handler.\<close>

definition machine_midcall :: "status_callback \<Rightarrow> call_data \<Rightarrow> bool" where
  "machine_midcall req call = (isMachineDetected req call \<and> CallStatus req \<notin> set terminal_statuses)"

text \<open>
  The words of the spec for "the next occurrence of hour \<open>h\<close> in zone \<open>z\<close>" after \<open>t\<close>:
  an instant after \<open>t\<close> whose wall clock in \<open>z\<close> shows \<open>h:00:00.000\<close>, with no such
  instant between \<open>t\<close> and it.
\<close>

definition next_occurrence :: "zone \<Rightarrow> int \<Rightarrow> instant \<Rightarrow> instant \<Rightarrow> bool" where
  "next_occurrence z h t r =
     (t < r
      \<and> TimeWithinDay (LocalTime z r) = h * msPerHour
      \<and> (\<forall>u. t < u \<and> u < r \<longrightarrow> TimeWithinDay (LocalTime z u) \<noteq> h * msPerHour))"


text \<open>
  A zone keeps the hour \<open>h\<close> regular when around every local time \<open>h:00:00.000\<close> the
  instants are ordered as their local times are: that local time is neither skipped nor
  repeated, and earlier and later instants show earlier and later local times.
\<close>

definition regular_hour :: "zone \<Rightarrow> int \<Rightarrow> bool" where
  "regular_hour z h =
     (\<forall>lt u. TimeWithinDay lt = h * msPerHour \<longrightarrow>
        (u < UTC_of_local z lt \<longleftrightarrow> LocalTime z u < lt)
        \<and> (UTC_of_local z lt < u \<longleftrightarrow> lt < LocalTime z u))"

section \<open>Sample data\<close>

text \<open>
  An environment in which every statement and every request succeeds, on a host whose
  local zone is Europe/Rome.
\<close>

definition env_ok :: env where
  "env_ok =
     \<lparr> clock = utc_instant 2025 3 14 10 15 0,
       host_zone = europe_rome,
       db_ok = (\<lambda>_. True),
       row_written_during_wait = None,
       carrier_fetch = Some ''in-progress'',
       carrier_update_ok = True,
       carrier_create = (\<lambda>_. Some ''CA2''),
       carrier_active_calls = Some 0,
       max_active = 3,
       signed_url = SignedUrl ''wss://agent.example/signed'' \<rparr>"

text \<open>The row of \<open>calls\<close> of a call to Mario Rossi that was attempt number \<open>n\<close>.\<close>

definition mario :: "int \<Rightarrow> call_data" where
  "mario n =
     \<lparr> phone = Some ''+390123456789'', to = None, contactId = Some ''c1'', contact_id = None,
       firstName = Some ''Mario'', first_name = None, fullName = Some ''Mario Rossi'',
       full_name = None, email = Some ''m@x'', full_address = None, address = None,
       signedUrl = Some ''wss://agent.example/signed'', retry_count = Some n,
       first_attempt_timestamp = Some (utc_instant 2025 3 14 10 0 0),
       status = Some ''initiated'', created_at = Some (utc_instant 2025 3 14 10 0 10),
       answeredBy = None, conversationId = None, retry_scheduled = Some 0 \<rparr>"

definition store_CA1 :: "int \<Rightarrow> store" where
  "store_CA1 n = \<lparr> calls = [''CA1'' \<mapsto> mario n], call_queue = [], queue_seq = 1 \<rparr>"

definition no_force :: retry_options where
  "no_force = \<lparr> reason = Some ''retryable_failure'', forceImmediate = False \<rparr>"

definition callback :: "string \<Rightarrow> string \<Rightarrow> string option \<Rightarrow> status_callback" where
  "callback sid st ab =
     \<lparr> CallSid = sid, CallStatus = st, AnsweredBy = ab, To = Some ''+390123456789'' \<rparr>"

definition mario_body :: body where
  "mario_body =
     [''phone'' \<mapsto> ''+390123456789'', ''contact_id'' \<mapsto> ''c1'', ''first_name'' \<mapsto> ''Mario'',
      ''full_name'' \<mapsto> ''Mario Rossi'', ''email'' \<mapsto> ''m@x'']"

text \<open>
  A sequence under way: Mario is enqueued, the processor dials him (the carrier names
  the call \<open>CA2\<close>), and the carrier reports \<open>no-answer\<close>.
\<close>

definition queued_store :: store where
  "queued_store = fst (outbound_call env_ok mario_body empty_store)"

definition dialled_store :: store where
  "dialled_store = fst (processCallQueue env_ok queued_store)"

definition no_answer_store :: store where
  "no_answer_store = fst (call_status env_ok (callback ''CA2'' ''no-answer'' None) dialled_store)"

text \<open>The first queue entry of that sequence, as the processor selects it.\<close>

definition first_job :: queue_row where
  "first_job = initial_row env_ok mario_body ''wss://agent.example/signed'' 1"

text \<open>The queue after some other round of the processor has taken that entry.\<close>

definition taken_store :: store where
  "taken_store = mark_processing (clock env_ok) 1 queued_store"

text \<open>The carrier delivers the same terminal event twice.\<close>

definition duplicate_callbacks :: "(env \<times> status_callback) list" where
  "duplicate_callbacks =
     [(env_ok, callback ''CA2'' ''completed'' (Some ''machine_start'')),
      (env_ok, callback ''CA2'' ''completed'' (Some ''machine_start''))]"

text \<open>A bridge with both sockets open.\<close>

definition live_bridge :: connectionState where
  "live_bridge =
     \<lparr> streamSid = Some ''MZ1'', callSid = Some ''CA1'', elevenLabsWs = Some OPEN, ws = OPEN \<rparr>"

section \<open>The next occurrence of an hour\<close>

text \<open>
  In a zone that keeps the hour regular, \<open>next_time\<close> is the next occurrence of that
  hour. Every zone with a constant offset keeps every hour regular, and Europe/Rome
  keeps the hours from 3 on regular.
\<close>

lemma regular_hour_roundtrip:
  assumes "regular_hour z h" "TimeWithinDay lt = h * msPerHour"
  shows "LocalTime z (UTC_of_local z lt) = lt"
proof -
  from assms have "\<not> LocalTime z (UTC_of_local z lt) < lt" "\<not> lt < LocalTime z (UTC_of_local z lt)"
    unfolding regular_hour_def by (metis less_irrefl)+
  then show ?thesis by simp
qed

lemma regular_hour_unique:
  assumes "regular_hour z h" "TimeWithinDay (LocalTime z u) = h * msPerHour"
  shows "UTC_of_local z (LocalTime z u) = u"
proof -
  from assms have "\<not> u < UTC_of_local z (LocalTime z u)" "\<not> UTC_of_local z (LocalTime z u) < u"
    unfolding regular_hour_def by (metis less_irrefl)+
  then show ?thesis by simp
qed

lemma regular_hour_before:
  "regular_hour z h \<Longrightarrow> TimeWithinDay lt = h * msPerHour \<Longrightarrow>
   (u < UTC_of_local z lt \<longleftrightarrow> LocalTime z u < lt)"
  unfolding regular_hour_def by blast

lemma regular_hour_after:
  "regular_hour z h \<Longrightarrow> TimeWithinDay lt = h * msPerHour \<Longrightarrow>
   (UTC_of_local z lt < u \<longleftrightarrow> lt < LocalTime z u)"
  unfolding regular_hour_def by blast

lemma hour_of_day:
  assumes "0 \<le> h" "h < 24"
  shows "TimeWithinDay (d * msPerDay + h * msPerHour) = h * msPerHour"
    and "Day (d * msPerDay + h * msPerHour) = d"
    and "TimeWithinDay (d * msPerDay + h * msPerHour + msPerDay) = h * msPerHour"
    and "Day (d * msPerDay + h * msPerHour + msPerDay) = d + 1"
  using assms by (simp_all add: TimeWithinDay_def Day_def msPerDay_def msPerHour_def)

lemma next_time_regular:
  assumes "regular_hour z h" "0 \<le> h" "h < 24"
  shows "next_time z h t =
     (if UTC_of_local z (Day (LocalTime z t) * msPerDay + h * msPerHour) \<le> t
      then UTC_of_local z (Day (LocalTime z t) * msPerDay + h * msPerHour + msPerDay)
      else UTC_of_local z (Day (LocalTime z t) * msPerDay + h * msPerHour))"
proof -
  let ?l0 = "Day (LocalTime z t) * msPerDay + h * msPerHour"
  have rt: "LocalTime z (UTC_of_local z ?l0) = ?l0"
    by (rule regular_hour_roundtrip[OF assms(1) hour_of_day(1)[OF assms(2,3)]])
  have "(Day ?l0 + 1) * msPerDay + TimeWithinDay ?l0 = ?l0 + msPerDay"
    unfolding hour_of_day(1,2)[OF assms(2,3)] by (simp add: algebra_simps)
  then show ?thesis
    by (simp add: next_time_def setHours_def setDate_next_def Let_def rt)
qed

lemma day_unique:
  assumes "k * 86400000 \<le> x" "x < k * 86400000 + 86400000"
  shows "x div 86400000 = (k::int)"
proof -
  define a where "a = x - k * 86400000"
  have "0 \<le> a" "a < 86400000" using assms by (simp_all add: a_def)
  then have "a div 86400000 = 0" by simp
  moreover have "x = a + k * 86400000" by (simp add: a_def)
  ultimately show ?thesis by simp
qed

lemma day_split: "Day x * msPerDay \<le> x \<and> x < Day x * msPerDay + msPerDay"
  unfolding Day_def msPerDay_def by presburger

lemma day_decomp: "x = Day x * msPerDay + TimeWithinDay x"
  by (simp add: Day_def TimeWithinDay_def)

lemma same_hour_days:
  assumes "TimeWithinDay a = c" "TimeWithinDay b = c" "a < b"
  shows "a + msPerDay \<le> b"
proof -
  have ea: "a = Day a * msPerDay + c" using day_decomp[of a] unfolding assms(1) .
  have eb: "b = Day b * msPerDay + c" using day_decomp[of b] unfolding assms(2) .
  note ea eb
  moreover from this assms(3) have "Day a * msPerDay < Day b * msPerDay" by simp
  then have "Day a < Day b" by (simp add: msPerDay_def)
  then have "Day a * msPerDay + msPerDay \<le> Day b * msPerDay" by (simp add: msPerDay_def)
  ultimately show ?thesis by linarith
qed

lemma next_time_next_occurrence:
  assumes reg: "regular_hour z h" and h: "0 \<le> h" "h < 24"
  shows "next_occurrence z h t (next_time z h t)"
    and "Day (LocalTime z (next_time z h t)) =
         Day (LocalTime z t) + (if h * msPerHour \<le> TimeWithinDay (LocalTime z t) then 1 else 0)"
proof -
  define d where "d = Day (LocalTime z t)"
  define l0 where "l0 = d * msPerDay + h * msPerHour"
  define l1 where "l1 = l0 + msPerDay"
  have w0: "TimeWithinDay l0 = h * msPerHour" and d0: "Day l0 = d"
    and w1: "TimeWithinDay l1 = h * msPerHour" and d1: "Day l1 = d + 1"
    unfolding l0_def l1_def using hour_of_day[OF h] by simp_all
  have nt: "next_time z h t = (if UTC_of_local z l0 \<le> t then UTC_of_local z l1 else UTC_of_local z l0)"
    unfolding l0_def l1_def d_def by (rule next_time_regular[OF reg h])
  have b: "d * msPerDay \<le> LocalTime z t" "LocalTime z t < d * msPerDay + msPerDay"
    unfolding d_def using day_split by auto
  have hb: "0 \<le> h * msPerHour" "h * msPerHour < msPerDay"
    using h by (simp_all add: msPerDay_def msPerHour_def)
  have lt1: "LocalTime z t < l1" unfolding l1_def l0_def using b hb by linarith
  have after1: "t < UTC_of_local z l1"
    using regular_hour_before[OF reg w1, of t] lt1 by simp
  have r0: "LocalTime z (UTC_of_local z l0) = l0" by (rule regular_hour_roundtrip[OF reg w0])
  have r1: "LocalTime z (UTC_of_local z l1) = l1" by (rule regular_hour_roundtrip[OF reg w1])
  have roll: "(UTC_of_local z l0 \<le> t) = (h * msPerHour \<le> TimeWithinDay (LocalTime z t))"
  proof -
    have "(UTC_of_local z l0 \<le> t) = (\<not> LocalTime z t < l0)"
      using regular_hour_before[OF reg w0, of t] by auto
    also have "\<dots> = (h * msPerHour \<le> TimeWithinDay (LocalTime z t))"
      using day_decomp[of "LocalTime z t"] unfolding l0_def d_def by linarith
    finally show ?thesis .
  qed
  show "Day (LocalTime z (next_time z h t)) =
         Day (LocalTime z t) + (if h * msPerHour \<le> TimeWithinDay (LocalTime z t) then 1 else 0)"
    unfolding nt roll[symmetric] using r0 r1 d0 d1 by (simp add: d_def)
  have least: "TimeWithinDay (LocalTime z u) \<noteq> h * msPerHour"
    if u: "t < u" "u < next_time z h t" for u
  proof
    assume wu: "TimeWithinDay (LocalTime z u) = h * msPerHour"
    let ?l = "LocalTime z u"
    have uu: "UTC_of_local z ?l = u" by (rule regular_hour_unique[OF reg wu])
    have above: "LocalTime z t < ?l"
      using regular_hour_before[OF reg wu, of t] uu u(1) by simp
    show False
    proof (cases "UTC_of_local z l0 \<le> t")
      case True
      with u(2) nt have "u < UTC_of_local z l1" by simp
      then have "?l < l1" using regular_hour_before[OF reg w1, of u] by simp
      then have "?l \<le> l0"
        using same_hour_days[OF wu w1] unfolding l1_def by linarith
      moreover have "l0 \<le> LocalTime z t"
        using True regular_hour_before[OF reg w0, of t] by auto
      ultimately show False using above by linarith
    next
      case False
      with u(2) nt have "u < UTC_of_local z l0" by simp
      then have "?l < l0" using regular_hour_before[OF reg w0, of u] by simp
      then have "?l + msPerDay \<le> l0" by (rule same_hour_days[OF wu w0])
      then have "?l < d * msPerDay" unfolding l0_def using hb by linarith
      with b(1) above show False by linarith
    qed
  qed
  have "t < next_time z h t"
    unfolding nt using after1 by simp
  moreover have "TimeWithinDay (LocalTime z (next_time z h t)) = h * msPerHour"
    unfolding nt using r0 r1 w0 w1 by simp
  ultimately show "next_occurrence z h t (next_time z h t)"
    unfolding next_occurrence_def using least by blast
qed

lemma regular_hour_fixed_zone: "regular_hour (fixed_zone off) h"
  by (auto simp: regular_hour_def fixed_zone_def LocalTime_def UTC_of_local_def)

lemma rome_offset_cases: "rome_offset d = msPerHour \<or> rome_offset d = 2 * msPerHour"
  by (simp add: rome_offset_def)

lemma same_day_window:
  assumes "TimeWithinDay lt = h * msPerHour" "3 \<le> h" "h < 24"
    and "lt - 3 * msPerHour \<le> x" "x \<le> lt"
  shows "Day x = Day lt"
proof -
  have l: "lt = Day lt * msPerDay + h * msPerHour" using day_decomp[of lt] assms(1) by simp
  have "Day lt * msPerDay \<le> x" "x < Day lt * msPerDay + msPerDay"
    using l assms(2-5) by (simp_all add: msPerDay_def msPerHour_def)
  then have "x div 86400000 = Day lt"
    unfolding msPerDay_def by (rule day_unique)
  then show ?thesis by (simp add: Day_def msPerDay_def)
qed

lemma regular_hour_europe_rome:
  assumes "3 \<le> h" "h < 24"
  shows "regular_hour europe_rome h"
  unfolding regular_hour_def
proof (intro allI impI)
  fix lt u
  assume w: "TimeWithinDay lt = h * msPerHour"
  define ol where "ol = rome_offset (Day lt)"
  define ou where "ou = rome_offset (Day (u - msPerHour))"
  have "Day (lt - 3 * msPerHour) = Day lt"
    by (rule same_day_window[OF w assms]) (simp_all add: msPerHour_def)
  then have U: "UTC_of_local europe_rome lt = lt - ol"
    by (simp add: UTC_of_local_def europe_rome_def ol_def)
  have L: "LocalTime europe_rome u = u + ou"
    by (simp add: LocalTime_def europe_rome_def ou_def)
  have oc: "ol = msPerHour \<or> ol = 2 * msPerHour" unfolding ol_def by (rule rome_offset_cases)
  have ouc: "ou = msPerHour \<or> ou = 2 * msPerHour" unfolding ou_def by (rule rome_offset_cases)
  have win: "ou = ol" if "lt - 2 * msPerHour \<le> u" "u \<le> lt + msPerHour"
  proof -
    have "Day (u - msPerHour) = Day lt"
      using that by (intro same_day_window[OF w assms]) (simp_all add: msPerHour_def)
    then show ?thesis by (simp add: ou_def ol_def)
  qed
  have hp: "0 < msPerHour" by (simp add: msPerHour_def)
  show "(u < UTC_of_local europe_rome lt \<longleftrightarrow> LocalTime europe_rome u < lt)
        \<and> (UTC_of_local europe_rome lt < u \<longleftrightarrow> lt < LocalTime europe_rome u)"
  proof (cases "lt - 2 * msPerHour \<le> u \<and> u \<le> lt + msPerHour")
    case True
    with win have "ou = ol" by simp
    then show ?thesis unfolding U L by auto
  next
    case False
    then show ?thesis unfolding U L using oc ouc hp by auto
  qed
qed

lemma schedule_lookup_simps:
  "schedule_lookup 0 = Immediate" "schedule_lookup 1 = Delay 1" "schedule_lookup 2 = Immediate"
  "schedule_lookup 3 = NextTime 9" "schedule_lookup 4 = Immediate" "schedule_lookup 5 = NextTime 14"
  "schedule_lookup 6 = Immediate" "schedule_lookup 7 = NextTime 19" "schedule_lookup 8 = Immediate"
  by (simp_all add: schedule_lookup_def RETRY_SCHEDULE_def)

text \<open>
  C1, on the code. For the ladder steps 3, 5 and 7 (hours 9, 14 and 19) the scheduled
  instant is computed in the local time zone of the process, whatever it is; no zone is
  named in the source. In every zone that keeps the hour \<open>H\<close> regular, which every zone
  with a constant offset and Europe/Rome itself do, the scheduled instant is the next
  occurrence of \<open>H:00\<close> in that zone: it is after \<open>t\<close>, its local wall-clock time is
  exactly \<open>H:00:00.000\<close>, no instant between \<open>t\<close> and it has that wall-clock time, and
  it lies on the next local day exactly when the local time of \<open>t\<close> is at or past
  \<open>H:00\<close>. On a host in Europe/Rome, \<open>t\<close> = 2025-03-14 10:15:00Z and H = 9 give
  2025-03-15 08:00:00Z.
\<close>

theorem next_time_in_host_zone:
  assumes "(i, H) \<in> {(3, 9), (5, 14), (7, 19)}" and "regular_hour z H"
  shows "schedule_lookup i = NextTime H
         \<and> next_occurrence z H t (scheduled_at_base z False (schedule_lookup i) t)
         \<and> Day (LocalTime z (scheduled_at_base z False (schedule_lookup i) t)) =
             Day (LocalTime z t) + (if H * msPerHour \<le> TimeWithinDay (LocalTime z t) then 1 else 0)
         \<and> regular_hour europe_rome H
         \<and> regular_hour (fixed_zone off) H
         \<and> scheduled_at_base europe_rome False (schedule_lookup 3)
              (utc_instant 2025 3 14 10 15 0) = utc_instant 2025 3 15 8 0 0"
proof -
  from assms(1) have H: "0 \<le> H" "H < 24" "3 \<le> H" and l: "schedule_lookup i = NextTime H"
    by (auto simp: schedule_lookup_simps)
  have ex: "scheduled_at_base europe_rome False (schedule_lookup 3)
              (utc_instant 2025 3 14 10 15 0) = utc_instant 2025 3 15 8 0 0"
    by code_simp
  have s: "scheduled_at_base z False (schedule_lookup i) t = next_time z H t"
    by (simp add: l scheduled_at_base_def)
  show ?thesis
    unfolding s
    using next_time_next_occurrence[OF assms(2) H(1,2), of t] l ex
      regular_hour_europe_rome[OF H(3,2)] regular_hour_fixed_zone[of off H]
    by simp
qed

theorem next_time_in_host_zone_witness:
  "(7, 19) \<in> {(3::int, 9::int), (5, 14), (7, 19)}
   \<and> regular_hour europe_rome 19
   \<and> scheduled_at_base europe_rome False (schedule_lookup 7) (utc_instant 2025 3 29 19 0 0)
       = utc_instant 2025 3 30 17 0 0
   \<and> next_occurrence europe_rome 19 (utc_instant 2025 3 29 19 0 0) (utc_instant 2025 3 30 17 0 0)
   \<and> Day (LocalTime europe_rome (utc_instant 2025 3 30 17 0 0))
       = Day (LocalTime europe_rome (utc_instant 2025 3 29 19 0 0)) + 1"
proof -
  have m: "(7, 19) \<in> {(3::int, 9::int), (5, 14), (7, 19)}" by simp
  have r: "regular_hour europe_rome 19" by (rule regular_hour_europe_rome) simp_all
  have v: "scheduled_at_base europe_rome False (schedule_lookup 7) (utc_instant 2025 3 29 19 0 0)
       = utc_instant 2025 3 30 17 0 0"
    by code_simp
  have c: "19 * msPerHour \<le> TimeWithinDay (LocalTime europe_rome (utc_instant 2025 3 29 19 0 0))"
    by code_simp
  note t = next_time_in_host_zone [OF m r, of "utc_instant 2025 3 29 19 0 0", unfolded v]
  from t have "next_occurrence europe_rome 19 (utc_instant 2025 3 29 19 0 0) (utc_instant 2025 3 30 17 0 0)"
    by blast
  moreover from t c have "Day (LocalTime europe_rome (utc_instant 2025 3 30 17 0 0))
       = Day (LocalTime europe_rome (utc_instant 2025 3 29 19 0 0)) + 1"
    by simp
  ultimately show ?thesis using m r v by blast
qed

text \<open>
  C1 as stated names Europe/Rome and the result 2025-03-15 08:00:00Z for
  \<open>t\<close> = 2025-03-14 10:15:00Z and H = 9. On a host whose local zone is UTC the code
  schedules 2025-03-15 09:00:00Z, which is 10:00 in Rome.
\<close>

theorem europe_rome_example_counterexample:
  "scheduled_at_base (fixed_zone 0) False (schedule_lookup 3) (utc_instant 2025 3 14 10 15 0)
     = utc_instant 2025 3 15 9 0 0
   \<and> utc_instant 2025 3 15 9 0 0 \<noteq> utc_instant 2025 3 15 8 0 0
   \<and> TimeWithinDay (LocalTime europe_rome (utc_instant 2025 3 15 9 0 0)) = 10 * msPerHour"
  by code_simp

section \<open>The retry ladder\<close>

lemma truthy_simps: "truthy None = False" "truthy (Some []) = False" "truthy (Some (c # cs)) = True"
  by (simp_all add: truthy_def)


lemma retry_row_stage: "q_retry_stage (retry_row e cd opts qid) = currentAttemptNumber cd + 1"
  by (simp add: retry_row_def Let_def)


lemma retry_row_first_attempt:
  "q_first_attempt_timestamp (retry_row e cd opts qid) =
     Some (case first_attempt_timestamp cd of Some t \<Rightarrow> t | None \<Rightarrow> clock e)"
  by (simp add: retry_row_def Let_def)



section \<open>Retries that are not scheduled\<close>

lemma scheduleRetry_max_attempts:
  "MAX_TOTAL_ATTEMPTS - 1 \<le> currentAttemptNumber cd \<Longrightarrow>
   scheduleRetry e cd sid opts s = (s, [Notify NonFatal ''Outgoing Call: Max Attempts Reached''])"
  by (simp add: scheduleRetry_def)

lemma scheduleRetry_missing:
  "currentAttemptNumber cd < MAX_TOTAL_ATTEMPTS - 1 \<Longrightarrow>
   \<not> truthy (safeTo cd) \<or> \<not> truthy (safeContactId cd) \<Longrightarrow>
   scheduleRetry e cd sid opts s =
     (s, [Notify NonFatal ''Outgoing Call: Retry Scheduling Skipped - Missing Data''])"
  by (auto simp add: scheduleRetry_def)

lemma safeTo_truthy: "truthy (safeTo cd) = (truthy (phone cd) \<or> truthy (to cd))"
  by (auto simp: safeTo_def js_or_def truthy_def)

lemma safeContactId_truthy: "truthy (safeContactId cd) = (truthy (contactId cd) \<or> truthy (contact_id cd))"
  by (auto simp: safeContactId_def js_or_def truthy_def)

text \<open>
  C10. When the call data given to \<open>scheduleRetry\<close> has no non-empty destination
  (neither \<open>phone\<close> nor \<open>to\<close>) or no non-empty contact id (neither \<open>contactId\<close> nor
  \<open>contact_id\<close>), the store comes back as it was, no insert into \<open>call_queue\<close> is
  issued, and the only effect is one notification.
\<close>

theorem scheduleRetry_missing_contact_data:
  assumes "(\<not> truthy (phone cd) \<and> \<not> truthy (to cd))
           \<or> (\<not> truthy (contactId cd) \<and> \<not> truthy (contact_id cd))"
  shows "fst (scheduleRetry e cd sid opts s) = s
         \<and> call_queue (fst (scheduleRetry e cd sid opts s)) = call_queue s
         \<and> count_inserts (snd (scheduleRetry e cd sid opts s)) = 0
         \<and> (snd (scheduleRetry e cd sid opts s) =
               [Notify NonFatal ''Outgoing Call: Retry Scheduling Skipped - Missing Data'']
             \<or> snd (scheduleRetry e cd sid opts s) =
               [Notify NonFatal ''Outgoing Call: Max Attempts Reached''])"
proof (cases "MAX_TOTAL_ATTEMPTS - 1 \<le> currentAttemptNumber cd")
  case True
  then show ?thesis by (simp add: scheduleRetry_max_attempts count_inserts_def)
next
  case False
  then have lt: "currentAttemptNumber cd < MAX_TOTAL_ATTEMPTS - 1" by simp
  from assms have "\<not> truthy (safeTo cd) \<or> \<not> truthy (safeContactId cd)"
    by (auto simp: safeTo_truthy safeContactId_truthy)
  from scheduleRetry_missing[OF lt this] show ?thesis by (simp add: count_inserts_def)
qed

theorem scheduleRetry_missing_contact_data_witness:
  "\<not> truthy (phone ((mario 0)\<lparr> phone := Some [] \<rparr>))
   \<and> \<not> truthy (to ((mario 0)\<lparr> phone := Some [] \<rparr>))
   \<and> fst (scheduleRetry env_ok ((mario 0)\<lparr> phone := Some [] \<rparr>) ''CA1'' no_force (store_CA1 0)) = store_CA1 0
   \<and> count_inserts
        (snd (scheduleRetry env_ok ((mario 0)\<lparr> phone := Some [] \<rparr>) ''CA1'' no_force (store_CA1 0))) = 0"
proof -
  have p: "\<not> truthy (phone ((mario 0)\<lparr> phone := Some [] \<rparr>))"
    "\<not> truthy (to ((mario 0)\<lparr> phone := Some [] \<rparr>))"
    by (simp_all add: mario_def truthy_simps)
  note t = scheduleRetry_missing_contact_data [OF disjI1 [OF conjI [OF p]],
      of env_ok "''CA1''" no_force "store_CA1 0"]
  from t p show ?thesis by blast
qed

section \<open>The bound on the attempt number\<close>

lemma store_inv_empty: "store_inv empty_store"
  by (simp add: store_inv_def empty_store_def)

lemma store_inv_insert_queue:
  "store_inv s \<Longrightarrow> 0 \<le> q_retry_stage row \<Longrightarrow> q_retry_stage row \<le> MAX_TOTAL_ATTEMPTS - 1 \<Longrightarrow>
   store_inv (insert_queue row s)"
  by (auto simp: store_inv_def insert_queue_def)

lemma store_inv_scheduleRetry:
  assumes "store_inv s" "0 \<le> currentAttemptNumber cd"
  shows "store_inv (fst (scheduleRetry e cd sid opts s))"
  using assms
  by (auto simp: scheduleRetry_def Let_def retry_row_stage intro!: store_inv_insert_queue)

lemma currentAttemptNumber_apply_field [simp]:
  "currentAttemptNumber (apply_field f r) = currentAttemptNumber r"
  by (cases f) (simp_all add: currentAttemptNumber_def)

lemma currentAttemptNumber_fold [simp]:
  "currentAttemptNumber (fold apply_field fs r) = currentAttemptNumber r"
  by (induction fs arbitrary: r) simp_all

lemma store_inv_updateCallData: "store_inv s \<Longrightarrow> store_inv (updateCallData sid fs s)"
  by (auto simp: store_inv_def updateCallData_def split: option.splits)

lemma currentAttemptNumber_call_row_of [simp]:
  "currentAttemptNumber (call_row_of d) = currentAttemptNumber d"
  by (simp add: currentAttemptNumber_def call_row_of_def split: option.splits)

lemma store_inv_setCallData:
  "store_inv s \<Longrightarrow> 0 \<le> currentAttemptNumber d \<Longrightarrow> currentAttemptNumber d \<le> MAX_TOTAL_ATTEMPTS - 1 \<Longrightarrow>
   store_inv (setCallData sid d s)"
  by (auto simp: store_inv_def setCallData_def)

lemma store_answered_by_inv:
  "store_inv s \<Longrightarrow> store_inv (fst (store_answered_by e req call s))"
  by (auto simp: store_answered_by_def store_inv_updateCallData split: option.splits)

lemma store_answered_by_attempt [simp]:
  "currentAttemptNumber (fst (snd (store_answered_by e req call s))) = currentAttemptNumber call"
  by (auto simp: store_answered_by_def currentAttemptNumber_def split: option.splits)

lemma end_call_after_machine_inv:
  "store_inv s \<Longrightarrow> store_inv (fst (end_call_after_machine e sid s))"
  by (auto simp: end_call_after_machine_def Let_def store_inv_updateCallData split: option.splits)

lemma store_inv_handle_call:
  assumes "store_inv s" "0 \<le> currentAttemptNumber call"
  shows "store_inv (fst (handle_call e req call s))"
  using assms
  by (simp add: handle_call_def split_beta store_inv_scheduleRetry store_answered_by_inv
      end_call_after_machine_inv store_inv_updateCallData)

lemma store_inv_call_status:
  assumes "store_inv s" "row_written_during_wait e = None"
  shows "store_inv (fst (call_status e req s))"
proof -
  have w: "store_after_wait e (CallSid req) s = s"
    using assms(2) by (simp add: store_after_wait_def)
  have c: "\<And>call. getCallData (CallSid req) s = Some call \<Longrightarrow> 0 \<le> currentAttemptNumber call"
    using assms(1) by (auto simp: getCallData_def store_inv_def split: if_splits)
  show ?thesis
    using assms(1) c
    by (auto simp: call_status_def Let_def w split_beta store_inv_handle_call split: option.splits)
qed

lemma store_inv_mark_processing: "store_inv s \<Longrightarrow> store_inv (mark_processing now qid s)"
  by (auto simp: store_inv_def mark_processing_def)

lemma store_inv_mark_failed: "store_inv s \<Longrightarrow> store_inv (mark_failed qid msg s)"
  by (auto simp: store_inv_def mark_failed_def)

lemma store_inv_delete_queue: "store_inv s \<Longrightarrow> store_inv (delete_queue qid s)"
  by (auto simp: store_inv_def delete_queue_def)

lemma store_inv_fail_job: "store_inv s \<Longrightarrow> store_inv (fst (fail_job e qid msg s tr))"
  by (simp add: fail_job_def store_inv_mark_failed)

lemma currentAttemptNumber_initial [simp]:
  "currentAttemptNumber (initial_call_data e job) = q_retry_stage job"
  by (simp add: currentAttemptNumber_def initial_call_data_def)

lemma store_inv_process_job:
  assumes "store_inv s" "0 \<le> q_retry_stage job" "q_retry_stage job \<le> MAX_TOTAL_ATTEMPTS - 1"
  shows "store_inv (fst (process_job e job s))"
  using assms
  by (auto simp: process_job_def Let_def store_inv_fail_job store_inv_mark_processing
      store_inv_setCallData store_inv_delete_queue split: option.splits)

lemma store_inv_process_jobs:
  assumes "store_inv s" "\<forall>job \<in> set jobs. 0 \<le> q_retry_stage job \<and> q_retry_stage job \<le> MAX_TOTAL_ATTEMPTS - 1"
  shows "store_inv (fst (process_jobs e jobs s))"
  using assms
proof (induction jobs arbitrary: s)
  case Nil
  then show ?case by simp
next
  case (Cons job jobs)
  then have "store_inv (fst (process_job e job s))"
    by (simp add: store_inv_process_job)
  with Cons show ?case by (simp add: split_beta)
qed

lemma select_pending_subset: "set (select_pending now slots s) \<subseteq> set (call_queue s)"
  by (auto simp: select_pending_def dest!: in_set_takeD)

lemma store_inv_processCallQueue:
  assumes "store_inv s"
  shows "store_inv (fst (processCallQueue e s))"
proof -
  have "\<forall>job \<in> set (select_pending (clock e) (max_active e - countActiveTwilioCalls e) s).
          0 \<le> q_retry_stage job \<and> q_retry_stage job \<le> MAX_TOTAL_ATTEMPTS - 1"
    using assms select_pending_subset by (fastforce simp: store_inv_def)
  with assms show ?thesis
    by (simp add: processCallQueue_def Let_def store_inv_process_jobs)
qed

lemma store_inv_outbound_call: "store_inv s \<Longrightarrow> store_inv (fst (outbound_call e b s))"
  by (auto simp: outbound_call_def Let_def initial_row_def MAX_TOTAL_ATTEMPTS_def
      intro!: store_inv_insert_queue split: signed_url_result.splits)

lemma reachable_store_inv: "reachable s \<Longrightarrow> store_inv s"
proof (induction rule: reachable.induct)
  case reachable_init
  show ?case by (rule store_inv_empty)
next
  case (reachable_enqueue s e b)
  then show ?case by (simp add: store_inv_outbound_call)
next
  case (reachable_tick s e)
  then show ?case by (simp add: store_inv_processCallQueue)
next
  case (reachable_status s e req)
  then show ?case by (simp add: store_inv_call_status)
next
  case (reachable_bridge s sid c)
  then show ?case by (simp add: store_inv_updateCallData)
qed

text \<open>
  C5. With a current attempt number of \<open>MAX_TOTAL_ATTEMPTS - 1 = 9\<close> or more,
  \<open>scheduleRetry\<close> leaves the store as it is and emits the notification
  "Max Attempts Reached" instead of an insert. Hence in every store the system reaches,
  every queue entry has an attempt number between 0 and 9.
\<close>

theorem max_attempts_bound:
  "(MAX_TOTAL_ATTEMPTS - 1 \<le> currentAttemptNumber cd \<longrightarrow>
      MAX_TOTAL_ATTEMPTS - 1 = 9
      \<and> scheduleRetry e cd sid opts s = (s, [Notify NonFatal ''Outgoing Call: Max Attempts Reached'']))
   \<and> (reachable s' \<longrightarrow>
        (\<forall>q \<in> set (call_queue s'). 0 \<le> q_retry_stage q \<and> q_retry_stage q \<le> MAX_TOTAL_ATTEMPTS - 1))"
  using reachable_store_inv[of s']
  by (auto simp: scheduleRetry_max_attempts store_inv_def MAX_TOTAL_ATTEMPTS_def)

theorem max_attempts_bound_witness:
  "MAX_TOTAL_ATTEMPTS - 1 \<le> currentAttemptNumber (mario 9)
   \<and> scheduleRetry env_ok (mario 9) ''CA1'' no_force (store_CA1 9) =
       (store_CA1 9, [Notify NonFatal ''Outgoing Call: Max Attempts Reached''])
   \<and> reachable no_answer_store
   \<and> map q_retry_stage (call_queue no_answer_store) = [1]
   \<and> 0 \<le> q_retry_stage (hd (call_queue no_answer_store))
   \<and> q_retry_stage (hd (call_queue no_answer_store)) \<le> MAX_TOTAL_ATTEMPTS - 1"
proof -
  have h: "MAX_TOTAL_ATTEMPTS - 1 \<le> currentAttemptNumber (mario 9)"
    by (simp add: MAX_TOTAL_ATTEMPTS_def currentAttemptNumber_def mario_def)
  have r: "reachable no_answer_store"
    unfolding no_answer_store_def dialled_store_def queued_store_def
    by (intro reachable_status reachable_tick reachable_enqueue reachable_init)
       (simp add: env_ok_def)
  have q: "map q_retry_stage (call_queue no_answer_store) = [1]"
    unfolding no_answer_store_def dialled_store_def queued_store_def by code_simp
  from q have m: "hd (call_queue no_answer_store) \<in> set (call_queue no_answer_store)"
    by (cases "call_queue no_answer_store") simp_all
  note t = max_attempts_bound [of "mario 9" env_ok "''CA1''" no_force "store_CA1 9" no_answer_store]
  from t h have "scheduleRetry env_ok (mario 9) ''CA1'' no_force (store_CA1 9) =
       (store_CA1 9, [Notify NonFatal ''Outgoing Call: Max Attempts Reached''])"
    by blast
  moreover from t r m have "0 \<le> q_retry_stage (hd (call_queue no_answer_store))
   \<and> q_retry_stage (hd (call_queue no_answer_store)) \<le> MAX_TOTAL_ATTEMPTS - 1"
    by blast
  ultimately show ?thesis using h r q by blast
qed

section \<open>The status handler, branch by branch\<close>

lemma count_inserts_simps [simp]:
  "count_inserts [] = 0"
  "count_inserts (x # xs) = (if is_queue_insert x then 1 else 0) + count_inserts xs"
  "count_inserts (xs @ ys) = count_inserts xs + count_inserts ys"
  by (simp_all add: count_inserts_def)

lemma scheduleRetry_count:
  "count_inserts (snd (scheduleRetry e cd sid opts s)) =
     (if currentAttemptNumber cd < MAX_TOTAL_ATTEMPTS - 1 \<and> truthy (safeTo cd) \<and> truthy (safeContactId cd)
      then 1 else 0)"
  by (simp add: scheduleRetry_def Let_def)

lemma scheduleRetry_calls [simp]: "calls (fst (scheduleRetry e cd sid opts s)) = calls s"
  by (simp add: scheduleRetry_def Let_def insert_queue_def)

lemma scheduleRetry_queue_length:
  "length (call_queue (fst (scheduleRetry e cd sid opts s))) =
     length (call_queue s) +
     (if currentAttemptNumber cd < MAX_TOTAL_ATTEMPTS - 1 \<and> truthy (safeTo cd) \<and> truthy (safeContactId cd)
         \<and> db_ok e InsertQueue
      then 1 else 0)"
  by (simp add: scheduleRetry_def Let_def insert_queue_def)

lemma store_answered_by_count [simp]:
  "count_inserts (snd (snd (store_answered_by e req call s))) = 0"
  by (simp add: store_answered_by_def split: option.splits)

lemma store_answered_by_queue [simp]:
  "call_queue (fst (store_answered_by e req call s)) = call_queue s"
  by (simp add: store_answered_by_def updateCallData_def split: option.splits)

lemma store_answered_by_call [simp]:
  "safeTo (fst (snd (store_answered_by e req call s))) = safeTo call"
  "safeContactId (fst (snd (store_answered_by e req call s))) = safeContactId call"
  by (simp_all add: store_answered_by_def safeTo_def safeContactId_def split: option.splits)

lemma updateCallData_queue [simp]: "call_queue (updateCallData sid fs s) = call_queue s"
  by (simp add: updateCallData_def split: option.splits)

lemma updateCallData_flag:
  "sid \<noteq> [] \<Longrightarrow> calls s sid = Some r \<Longrightarrow>
   calls (updateCallData sid [RetryScheduledF 1] s) sid = Some (r\<lparr> retry_scheduled := Some 1 \<rparr>)"
  by (simp add: updateCallData_def)

lemma store_answered_by_row:
  "calls s (CallSid req) = Some r \<Longrightarrow>
   \<exists>r'. calls (fst (store_answered_by e req call s)) (CallSid req) = Some r'"
  by (auto simp add: store_answered_by_def updateCallData_def split: option.splits)

lemma end_call_after_machine_count [simp]:
  "count_inserts (snd (end_call_after_machine e sid s)) = 0"
  by (simp add: end_call_after_machine_def Let_def split: option.splits)

lemma end_call_after_machine_queue [simp]:
  "call_queue (fst (end_call_after_machine e sid s)) = call_queue s"
  by (simp add: end_call_after_machine_def Let_def split: option.splits)

lemma end_call_after_machine_store:
  "db_ok e UpdateRetryScheduled \<Longrightarrow>
   fst (end_call_after_machine e sid s) = updateCallData sid [RetryScheduledF 1] s"
  by (simp add: end_call_after_machine_def Let_def split: option.splits)

lemma handle_call_latched:
  "truthy_num (retry_scheduled call) \<Longrightarrow>
   handle_call e req call s = (s, [Reply 200 ''OK. Retry already handled.''])"
  by (simp add: handle_call_def)

lemma handle_call_machine:
  assumes "\<not> truthy_num (retry_scheduled call)" "machine_midcall req call"
  shows "handle_call e req call s =
     (fst (scheduleRetry e (fst (snd (store_answered_by e req call s))) (CallSid req)
             \<lparr> reason = Some ''machine_detected'', forceImmediate = False \<rparr>
             (fst (end_call_after_machine e (CallSid req) (fst (store_answered_by e req call s))))),
      snd (snd (store_answered_by e req call s))
      @ snd (end_call_after_machine e (CallSid req) (fst (store_answered_by e req call s)))
      @ snd (scheduleRetry e (fst (snd (store_answered_by e req call s))) (CallSid req)
             \<lparr> reason = Some ''machine_detected'', forceImmediate = False \<rparr>
             (fst (end_call_after_machine e (CallSid req) (fst (store_answered_by e req call s)))))
      @ [Reply 200 ''OK. Machine detected, call ended, retry scheduled.''])"
  using assms by (simp add: handle_call_def machine_midcall_def split_beta)

lemma handle_call_retryable:
  assumes "\<not> truthy_num (retry_scheduled call)" "\<not> machine_midcall req call"
    "isRetryableFailure req call" "db_ok e UpdateRetryScheduled"
  shows "handle_call e req call s =
     (fst (scheduleRetry e (fst (snd (store_answered_by e req call s))) (CallSid req)
             \<lparr> reason = Some ''retryable_failure'', forceImmediate = False \<rparr>
             (updateCallData (CallSid req) [RetryScheduledF 1] (fst (store_answered_by e req call s)))),
      snd (snd (store_answered_by e req call s))
      @ [DbUpdateCall (CallSid req) [RetryScheduledF 1]]
      @ snd (scheduleRetry e (fst (snd (store_answered_by e req call s))) (CallSid req)
             \<lparr> reason = Some ''retryable_failure'', forceImmediate = False \<rparr>
             (updateCallData (CallSid req) [RetryScheduledF 1] (fst (store_answered_by e req call s))))
      @ [Reply 200 ''OK. Retryable failure, retry scheduled.''])"
  using assms by (simp add: handle_call_def machine_midcall_def split_beta)

lemma handle_call_no_retry:
  assumes "\<not> truthy_num (retry_scheduled call)" "\<not> machine_midcall req call"
    "\<not> (isRetryableFailure req call \<and> db_ok e UpdateRetryScheduled)"
  shows "fst (handle_call e req call s) = fst (store_answered_by e req call s)"
    and "count_inserts (snd (handle_call e req call s)) = 0"
  using assms by (auto simp add: handle_call_def machine_midcall_def split_beta)

lemma handle_call_human:
  assumes "\<not> truthy_num (retry_scheduled call)" "CallStatus req = ''completed''"
    "\<not> isMachineDetected req call"
  shows "handle_call e req call s =
     (fst (store_answered_by e req call s),
      snd (snd (store_answered_by e req call s))
      @ [Notify Positive ''Outgoing Call: Successful Human Connection'',
         Reply 200 ''OK. Human answered, no retry.''])"
  using assms by (simp add: handle_call_def isRetryableFailure_def split_beta)

lemma handle_call_count_le: "count_inserts (snd (handle_call e req call s)) \<le> 1"
proof (cases "truthy_num (retry_scheduled call)")
  case True
  then show ?thesis by (simp add: handle_call_latched)
next
  case nl: False
  show ?thesis
  proof (cases "machine_midcall req call")
    case True
    then show ?thesis by (simp add: handle_call_machine[OF nl] scheduleRetry_count)
  next
    case nm: False
    show ?thesis
    proof (cases "isRetryableFailure req call \<and> db_ok e UpdateRetryScheduled")
      case True
      then show ?thesis by (simp add: handle_call_retryable[OF nl nm] scheduleRetry_count)
    next
      case False
      then show ?thesis by (simp add: handle_call_no_retry(2)[OF nl nm])
    qed
  qed
qed

lemma handle_call_insert_latches:
  assumes "0 < count_inserts (snd (handle_call e req call s))"
    "db_ok e UpdateRetryScheduled" "CallSid req \<noteq> []" "calls s (CallSid req) = Some r"
  shows "latched (CallSid req) (fst (handle_call e req call s))"
proof -
  from assms(1) have nl: "\<not> truthy_num (retry_scheduled call)"
    by (auto simp: handle_call_latched)
  obtain r' where r': "calls (fst (store_answered_by e req call s)) (CallSid req) = Some r'"
    using store_answered_by_row[OF assms(4)] by blast
  have fl: "latched (CallSid req) (updateCallData (CallSid req) [RetryScheduledF 1] (fst (store_answered_by e req call s)))"
    by (simp add: latched_def updateCallData_flag[OF assms(3) r'] truthy_num_def)
  show ?thesis
  proof (cases "machine_midcall req call")
    case True
    then show ?thesis
      using fl by (simp add: handle_call_machine[OF nl] end_call_after_machine_store[OF assms(2)] latched_def)
  next
    case nm: False
    show ?thesis
    proof (cases "isRetryableFailure req call")
      case True
      then show ?thesis
        using fl by (simp add: handle_call_retryable[OF nl nm True assms(2)] latched_def)
    next
      case False
      then show ?thesis using assms(1) by (simp add: handle_call_no_retry(2)[OF nl nm])
    qed
  qed
qed

section \<open>A callback for an unknown call\<close>

lemma store_after_wait_absent:
  assumes "getCallData sid (store_after_wait e sid s) = None"
  shows "store_after_wait e sid s = s"
  using assms
  by (auto simp: store_after_wait_def getCallData_def setCallData_def split: option.splits if_splits)

lemma scheduleRetry_no_lookup:
  "x \<in> set (snd (scheduleRetry e cd sid opts s)) \<Longrightarrow> \<not> is_lookup_or_sleep x"
  by (auto simp: scheduleRetry_def Let_def split: if_splits)

lemma store_answered_by_no_lookup:
  "x \<in> set (snd (snd (store_answered_by e req call s))) \<Longrightarrow> \<not> is_lookup_or_sleep x"
  by (auto simp: store_answered_by_def split: option.splits if_splits)

lemma end_call_after_machine_no_lookup:
  "x \<in> set (snd (end_call_after_machine e sid s)) \<Longrightarrow> \<not> is_lookup_or_sleep x"
  by (auto simp: end_call_after_machine_def Let_def split: option.splits if_splits)

lemma handle_call_no_lookup:
  "x \<in> set (snd (handle_call e req call s)) \<Longrightarrow> \<not> is_lookup_or_sleep x"
  by (auto simp: handle_call_def split_beta split: if_splits
      dest: scheduleRetry_no_lookup store_answered_by_no_lookup end_call_after_machine_no_lookup)

text \<open>
  C8. When the lookup of the call id finds no row, the handler sleeps 2000 ms and looks
  the call up once more, and nothing after that is a lookup or a sleep. If that second
  lookup finds no row either, the event is dropped: the store is the one the handler
  started from, and the effects are the two lookups with the sleep between them, one
  notification and the answer 200.
\<close>

theorem status_unknown_call_dropped:
  assumes "db_ok e GetCall" and "db_ok e GetCallAgain"
    and "getCallData (CallSid req) s = None"
  shows "(getCallData (CallSid req) (store_after_wait e (CallSid req) s) = None \<longrightarrow>
            call_status e req s =
              (s, [DbGetCall (CallSid req), Sleep 2000, DbGetCall (CallSid req),
                   Notify NonFatal ''Outgoing Call: Status Data Missing'',
                   Reply 200 ''OK. No call data found in calls table after retry.'']))
         \<and> (\<exists>rest. snd (call_status e req s) =
                      [DbGetCall (CallSid req), Sleep 2000, DbGetCall (CallSid req)] @ rest
                    \<and> filter is_lookup_or_sleep rest = [])"
proof (cases "getCallData (CallSid req) (store_after_wait e (CallSid req) s)")
  case None
  from store_after_wait_absent[OF None] None assms show ?thesis
    by (simp add: call_status_def Let_def lookup_fails_def)
next
  case (Some call)
  let ?s' = "store_after_wait e (CallSid req) s"
  have "snd (call_status e req s) =
          [DbGetCall (CallSid req), Sleep 2000, DbGetCall (CallSid req)] @ snd (handle_call e req call ?s')"
    using assms Some by (simp add: call_status_def Let_def lookup_fails_def split_beta)
  moreover have "filter is_lookup_or_sleep (snd (handle_call e req call ?s')) = []"
    by (auto simp: filter_empty_conv dest: handle_call_no_lookup)
  ultimately have "\<exists>rest. snd (call_status e req s) =
                      [DbGetCall (CallSid req), Sleep 2000, DbGetCall (CallSid req)] @ rest
                    \<and> filter is_lookup_or_sleep rest = []"
    by (intro exI conjI)
  with Some show ?thesis by simp
qed

theorem status_unknown_call_dropped_witness:
  "db_ok env_ok GetCall \<and> db_ok env_ok GetCallAgain
   \<and> getCallData (CallSid (callback ''CA9'' ''ringing'' None)) (store_CA1 0) = None
   \<and> getCallData (CallSid (callback ''CA9'' ''ringing'' None))
        (store_after_wait env_ok (CallSid (callback ''CA9'' ''ringing'' None)) (store_CA1 0)) = None
   \<and> call_status env_ok (callback ''CA9'' ''ringing'' None) (store_CA1 0) =
        (store_CA1 0, [DbGetCall ''CA9'', Sleep 2000, DbGetCall ''CA9'',
                Notify NonFatal ''Outgoing Call: Status Data Missing'',
                Reply 200 ''OK. No call data found in calls table after retry.''])"
proof -
  have h: "db_ok env_ok GetCall" "db_ok env_ok GetCallAgain"
    "getCallData (CallSid (callback ''CA9'' ''ringing'' None)) (store_CA1 0) = None"
    by (simp_all add: env_ok_def callback_def store_CA1_def getCallData_def)
  have a: "getCallData (CallSid (callback ''CA9'' ''ringing'' None))
        (store_after_wait env_ok (CallSid (callback ''CA9'' ''ringing'' None)) (store_CA1 0)) = None"
    by (simp add: env_ok_def callback_def store_CA1_def getCallData_def store_after_wait_def)
  have c: "CallSid (callback ''CA9'' ''ringing'' None) = ''CA9''" by (simp add: callback_def)
  note t = status_unknown_call_dropped [OF h, THEN conjunct1, THEN mp, OF a]
  from t h a c show ?thesis by simp
qed

section \<open>The latch \<open>retry_scheduled\<close>\<close>

lemma call_status_found':
  assumes "\<not> lookup_fails e GetCall (CallSid req)" "getCallData (CallSid req) s = Some call"
  shows "call_status e req s =
           (fst (handle_call e req call s), DbGetCall (CallSid req) # snd (handle_call e req call s))"
  using assms by (simp add: call_status_def Let_def split_beta)

lemma call_status_found:
  assumes "db_ok e GetCall" "getCallData (CallSid req) s = Some call"
  shows "call_status e req s =
           (fst (handle_call e req call s), DbGetCall (CallSid req) # snd (handle_call e req call s))"
  using assms by (simp add: call_status_found' lookup_fails_def)

lemma call_status_latched:
  assumes "latched (CallSid req) s"
  shows "fst (call_status e req s) = s" and "count_inserts (snd (call_status e req s)) = 0"
proof -
  have w: "CallSid req = [] \<Longrightarrow> store_after_wait e (CallSid req) s = s"
    by (simp add: store_after_wait_def setCallData_def split: option.splits)
  have "fst (call_status e req s) = s \<and> count_inserts (snd (call_status e req s)) = 0"
  proof (cases "CallSid req = []")
    case True
    then show ?thesis
      using w by (simp add: call_status_def Let_def getCallData_def lookup_fails_def)
  next
    case False
    with assms obtain r where r: "getCallData (CallSid req) s = Some r" "truthy_num (retry_scheduled r)"
      by (auto simp: latched_def getCallData_def split: option.splits)
    show ?thesis
    proof (cases "db_ok e GetCall")
      case True
      then show ?thesis by (simp add: call_status_found[OF True r(1)] handle_call_latched[OF r(2)])
    next
      case nok: False
      with False show ?thesis by (simp add: call_status_def Let_def lookup_fails_def)
    qed
  qed
  then show "fst (call_status e req s) = s" and "count_inserts (snd (call_status e req s)) = 0"
    by simp_all
qed

lemma getCallData_SomeD: "getCallData sid s = Some call \<Longrightarrow> sid \<noteq> [] \<and> calls s sid = Some call"
  by (auto simp: getCallData_def split: if_splits)

lemma call_status_shape:
  "(\<exists>pre call s'. call_status e req s = (fst (handle_call e req call s'), pre @ snd (handle_call e req call s'))
       \<and> count_inserts pre = 0 \<and> getCallData (CallSid req) s' = Some call)
   \<or> count_inserts (snd (call_status e req s)) = 0"
proof (cases "lookup_fails e GetCall (CallSid req)")
  case True
  then show ?thesis by (simp add: call_status_def Let_def)
next
  case ok: False
  show ?thesis
  proof (cases "getCallData (CallSid req) s")
    case (Some call)
    have "call_status e req s = (fst (handle_call e req call s), [DbGetCall (CallSid req)] @ snd (handle_call e req call s))
       \<and> count_inserts [DbGetCall (CallSid req)] = 0 \<and> getCallData (CallSid req) s = Some call"
      using Some by (simp add: call_status_found'[OF ok Some])
    then show ?thesis by blast
  next
    case None
    show ?thesis
    proof (cases "lookup_fails e GetCallAgain (CallSid req)")
      case True
      then show ?thesis using None ok by (simp add: call_status_def Let_def)
    next
      case again: False
      show ?thesis
      proof (cases "getCallData (CallSid req) (store_after_wait e (CallSid req) s)")
        case None2: None
        then show ?thesis using None ok again by (simp add: call_status_def Let_def)
      next
        case (Some call)
        let ?s' = "store_after_wait e (CallSid req) s"
        have "call_status e req s = (fst (handle_call e req call ?s'),
                [DbGetCall (CallSid req), Sleep 2000, DbGetCall (CallSid req)] @ snd (handle_call e req call ?s'))
          \<and> count_inserts [DbGetCall (CallSid req), Sleep 2000, DbGetCall (CallSid req)] = 0
          \<and> getCallData (CallSid req) ?s' = Some call"
          using None ok again Some by (simp add: call_status_def Let_def split_beta)
        then show ?thesis by blast
      qed
    qed
  qed
qed

lemma call_status_count_le: "count_inserts (snd (call_status e req s)) \<le> 1"
  using call_status_shape[of e req s] handle_call_count_le
  by (auto simp: )

lemma call_status_insert_latches:
  assumes "0 < count_inserts (snd (call_status e req s))" "db_ok e UpdateRetryScheduled"
  shows "latched (CallSid req) (fst (call_status e req s))"
proof -
  from call_status_shape[of e req s] assms(1)
  obtain pre call s' where sh: "call_status e req s = (fst (handle_call e req call s'), pre @ snd (handle_call e req call s'))"
      "count_inserts pre = 0" "getCallData (CallSid req) s' = Some call"
    by auto
  from sh(1,2) assms(1) have pos: "0 < count_inserts (snd (handle_call e req call s'))" by simp
  from getCallData_SomeD[OF sh(3)] have "CallSid req \<noteq> []" "calls s' (CallSid req) = Some call" by auto
  from handle_call_insert_latches[OF pos assms(2) this] sh(1) show ?thesis by simp
qed

lemma run_callbacks_count:
  assumes "\<forall>(e, req) \<in> set cbs. CallSid req = sid \<and> db_ok e UpdateRetryScheduled"
  shows "count_inserts (snd (run_callbacks cbs s)) \<le> (if latched sid s then 0 else 1)"
  using assms
proof (induction cbs arbitrary: s)
  case Nil
  then show ?case by simp
next
  case (Cons cb cbs)
  obtain e req where cb: "cb = (e, req)" by (cases cb)
  from Cons.prems cb have sid: "CallSid req = sid" and ok: "db_ok e UpdateRetryScheduled"
    and rest: "\<forall>(e, req) \<in> set cbs. CallSid req = sid \<and> db_ok e UpdateRetryScheduled"
    by auto
  let ?s1 = "fst (call_status e req s)"
  let ?c1 = "count_inserts (snd (call_status e req s))"
  have tot: "count_inserts (snd (run_callbacks (cb # cbs) s)) = ?c1 + count_inserts (snd (run_callbacks cbs ?s1))"
    by (simp add: cb split_beta)
  note ih = Cons.IH[OF rest, of ?s1]
  show ?case
  proof (cases "latched sid s")
    case True
    with call_status_latched[of req s e] sid have "?s1 = s" "?c1 = 0" by auto
    with ih True tot show ?thesis by simp
  next
    case False
    show ?thesis
    proof (cases "?c1 = 0")
      case True
      with ih tot False show ?thesis by (simp split: if_splits)
    next
      case nz: False
      then have "latched sid ?s1" using call_status_insert_latches[OF _ ok, of req s] sid by simp
      moreover have "?c1 \<le> 1" by (rule call_status_count_le)
      ultimately show ?thesis using ih tot False by simp
    qed
  qed
qed


lemma count_inserts_0_iff: "count_inserts tr = 0 \<longleftrightarrow> (\<forall>x \<in> set tr. \<not> is_queue_insert x)"
  by (simp add: count_inserts_def filter_empty_conv)

lemma before_insert_append:
  "count_inserts xs = 0 \<Longrightarrow> before_insert (xs @ ys) = xs @ before_insert ys"
  by (simp add: before_insert_def count_inserts_0_iff)

lemma end_call_after_machine_flag:
  "DbUpdateCall sid [RetryScheduledF 1] \<in> set (snd (end_call_after_machine e sid s))"
  by (simp add: end_call_after_machine_def Let_def split: option.splits)

lemma handle_call_flag_first:
  assumes "0 < count_inserts (snd (handle_call e req call s))"
  shows "DbUpdateCall (CallSid req) [RetryScheduledF 1] \<in> set (before_insert (snd (handle_call e req call s)))"
proof -
  from assms have nl: "\<not> truthy_num (retry_scheduled call)"
    by (auto simp: handle_call_latched)
  show ?thesis
  proof (cases "machine_midcall req call")
    case True
    show ?thesis
      unfolding handle_call_machine[OF nl True] snd_conv
      by (simp add: before_insert_append end_call_after_machine_flag)
  next
    case nm: False
    show ?thesis
    proof (cases "isRetryableFailure req call \<and> db_ok e UpdateRetryScheduled")
      case True
      then have r: "isRetryableFailure req call" and ok: "db_ok e UpdateRetryScheduled" by auto
      have u: "count_inserts [DbUpdateCall (CallSid req) [RetryScheduledF 1]] = 0" by simp
      show ?thesis
        unfolding handle_call_retryable[OF nl nm r ok] snd_conv
        by (simp add: before_insert_append before_insert_append[OF u, simplified])
    next
      case False
      with assms show ?thesis by (simp add: handle_call_no_retry(2)[OF nl nm])
    qed
  qed
qed

lemma call_status_flag_first:
  assumes "0 < count_inserts (snd (call_status e req s))"
  shows "DbUpdateCall (CallSid req) [RetryScheduledF 1] \<in> set (before_insert (snd (call_status e req s)))"
proof -
  from call_status_shape[of e req s] assms
  obtain pre call s' where sh: "call_status e req s = (fst (handle_call e req call s'), pre @ snd (handle_call e req call s'))"
      "count_inserts pre = 0"
    by auto
  from sh assms have pos: "0 < count_inserts (snd (handle_call e req call s'))" by simp
  from handle_call_flag_first[OF pos] sh show ?thesis
    by (simp add: before_insert_append)
qed

text \<open>
  C2, on the code. (1) Once the row of a call has \<open>retry_scheduled\<close> set, a callback
  for that call that finds the row is answered 200 and changes nothing. (2) Whenever a
  callback issues an insert into the queue, the update that sets \<open>retry_scheduled\<close> was
  issued before it, in both retry branches. (3) Callbacks for one call id that are
  handled one after the other, each to its end, and whose update of the flag the store
  accepts, issue at most one insert between them.
\<close>

theorem retry_latch:
  "(latched sid s1 \<and> CallSid req1 = sid \<and> sid \<noteq> [] \<and> db_ok e1 GetCall \<longrightarrow>
      call_status e1 req1 s1 = (s1, [DbGetCall sid, Reply 200 ''OK. Retry already handled.'']))
   \<and> (0 < count_inserts (snd (call_status e2 req2 s2)) \<longrightarrow>
        DbUpdateCall (CallSid req2) [RetryScheduledF 1]
          \<in> set (before_insert (snd (call_status e2 req2 s2))))
   \<and> ((\<forall>(e, req) \<in> set cbs. CallSid req = sid \<and> db_ok e UpdateRetryScheduled) \<longrightarrow>
        count_inserts (snd (run_callbacks cbs s)) \<le> 1)"
proof (intro conjI impI)
  assume a: "latched sid s1 \<and> CallSid req1 = sid \<and> sid \<noteq> [] \<and> db_ok e1 GetCall"
  then obtain r where r: "getCallData (CallSid req1) s1 = Some r" "truthy_num (retry_scheduled r)"
    by (auto simp: latched_def getCallData_def split: option.splits)
  from a have ok: "db_ok e1 GetCall" by simp
  show "call_status e1 req1 s1 = (s1, [DbGetCall sid, Reply 200 ''OK. Retry already handled.''])"
    using a by (simp add: call_status_found[OF ok r(1)] handle_call_latched[OF r(2)])
next
  assume "0 < count_inserts (snd (call_status e2 req2 s2))"
  then show "DbUpdateCall (CallSid req2) [RetryScheduledF 1]
          \<in> set (before_insert (snd (call_status e2 req2 s2)))"
    by (rule call_status_flag_first)
next
  assume "\<forall>(e, req) \<in> set cbs. CallSid req = sid \<and> db_ok e UpdateRetryScheduled"
  from run_callbacks_count[OF this, of s]
  show "count_inserts (snd (run_callbacks cbs s)) \<le> 1" by (simp split: if_splits)
qed

theorem retry_latch_witness:
  "latched ''CA2'' no_answer_store
   \<and> call_status env_ok (callback ''CA2'' ''completed'' (Some ''machine_start'')) no_answer_store =
       (no_answer_store, [DbGetCall ''CA2'', Reply 200 ''OK. Retry already handled.''])
   \<and> 0 < count_inserts (snd (call_status env_ok (callback ''CA2'' ''no-answer'' None) dialled_store))
   \<and> DbUpdateCall ''CA2'' [RetryScheduledF 1]
        \<in> set (before_insert (snd (call_status env_ok (callback ''CA2'' ''no-answer'' None) dialled_store)))
   \<and> count_inserts (snd (run_callbacks duplicate_callbacks dialled_store)) \<le> 1
   \<and> count_inserts (snd (run_callbacks duplicate_callbacks dialled_store)) = 1"
proof -
  have l: "latched ''CA2'' no_answer_store"
    unfolding no_answer_store_def dialled_store_def queued_store_def by code_simp
  have c: "CallSid (callback ''CA2'' ''completed'' (Some ''machine_start'')) = ''CA2''"
    "CallSid (callback ''CA2'' ''no-answer'' None) = ''CA2''" "''CA2'' \<noteq> []"
    "db_ok env_ok GetCall"
    by (simp_all add: callback_def env_ok_def)
  have p: "0 < count_inserts (snd (call_status env_ok (callback ''CA2'' ''no-answer'' None) dialled_store))"
    unfolding dialled_store_def queued_store_def by code_simp
  have d: "\<forall>(e, req) \<in> set duplicate_callbacks. CallSid req = ''CA2'' \<and> db_ok e UpdateRetryScheduled"
    by (simp add: duplicate_callbacks_def callback_def env_ok_def)
  have n: "count_inserts (snd (run_callbacks duplicate_callbacks dialled_store)) = 1"
    unfolding dialled_store_def queued_store_def by code_simp
  from retry_latch [of "''CA2''" no_answer_store "callback ''CA2'' ''completed'' (Some ''machine_start'')"
      env_ok env_ok "callback ''CA2'' ''no-answer'' None" dialled_store duplicate_callbacks dialled_store]
    l c p d n
  show ?thesis by simp
qed

text \<open>
  C2 as stated also covers racing callbacks. Two handlers for \<open>CA1\<close> both read the row
  before either has set the flag; the first one runs to its end, then the second goes
  on with the object it read. Each inserts attempt 1: two retries for one call id.
\<close>

theorem racing_callbacks_counterexample:
  "getCallData ''CA1'' (store_CA1 0) = Some (mario 0)
   \<and> count_inserts
        (snd (handle_call env_ok (callback ''CA1'' ''no-answer'' None) (mario 0) (store_CA1 0))
         @ snd (handle_call env_ok (callback ''CA1'' ''no-answer'' None) (mario 0)
                 (fst (handle_call env_ok (callback ''CA1'' ''no-answer'' None) (mario 0) (store_CA1 0)))))
       = 2
   \<and> map q_retry_stage
        (call_queue
          (fst (handle_call env_ok (callback ''CA1'' ''no-answer'' None) (mario 0)
                 (fst (handle_call env_ok (callback ''CA1'' ''no-answer'' None) (mario 0) (store_CA1 0))))))
       = [1, 1]"
  by code_simp

section \<open>The classification of a callback\<close>

lemma store_answered_by_latched [simp]:
  "latched sid (fst (store_answered_by e req call s)) = latched sid s"
  by (auto simp: store_answered_by_def latched_def updateCallData_def split: option.splits)

lemma retryable_cases:
  assumes "CallStatus req \<in> {''no-answer'', ''busy'', ''failed''}
           \<or> (CallStatus req \<in> {''completed'', ''canceled''} \<and> isMachineDetected req call)"
  shows "isRetryableFailure req call"
  using assms by (auto simp: isRetryableFailure_def)

lemma handle_call_retry_paths:
  assumes nl: "\<not> truthy_num (retry_scheduled call)"
    and ok: "db_ok e UpdateRetryScheduled"
    and rf: "isRetryableFailure req call \<or> machine_midcall req call"
    and sid: "CallSid req \<noteq> []" and row: "calls s (CallSid req) = Some r0"
  shows "(\<exists>r. calls (fst (handle_call e req call s)) (CallSid req) = Some r \<and> retry_scheduled r = Some 1)"
    and "count_inserts (snd (handle_call e req call s)) =
           (if currentAttemptNumber call < MAX_TOTAL_ATTEMPTS - 1 \<and> truthy (safeTo call)
               \<and> truthy (safeContactId call) then 1 else 0)"
    and "length (call_queue (fst (handle_call e req call s))) =
           length (call_queue s) +
           (if currentAttemptNumber call < MAX_TOTAL_ATTEMPTS - 1 \<and> truthy (safeTo call)
               \<and> truthy (safeContactId call) \<and> db_ok e InsertQueue then 1 else 0)"
    and "\<exists>msg. last (snd (handle_call e req call s)) = Reply 200 msg"
proof -
  obtain r' where r': "calls (fst (store_answered_by e req call s)) (CallSid req) = Some r'"
    using store_answered_by_row[OF row] by blast
  note fl = updateCallData_flag[OF sid r']
  have "(\<exists>r. calls (fst (handle_call e req call s)) (CallSid req) = Some r \<and> retry_scheduled r = Some 1)
    \<and> count_inserts (snd (handle_call e req call s)) =
           (if currentAttemptNumber call < MAX_TOTAL_ATTEMPTS - 1 \<and> truthy (safeTo call)
               \<and> truthy (safeContactId call) then 1 else 0)
    \<and> length (call_queue (fst (handle_call e req call s))) =
           length (call_queue s) +
           (if currentAttemptNumber call < MAX_TOTAL_ATTEMPTS - 1 \<and> truthy (safeTo call)
               \<and> truthy (safeContactId call) \<and> db_ok e InsertQueue then 1 else 0)
    \<and> (\<exists>msg. last (snd (handle_call e req call s)) = Reply 200 msg)"
  proof (cases "machine_midcall req call")
    case True
    show ?thesis
      unfolding handle_call_machine[OF nl True] fst_conv snd_conv
      by (simp add: scheduleRetry_count scheduleRetry_queue_length end_call_after_machine_store[OF ok] fl)
  next
    case nm: False
    with rf have r: "isRetryableFailure req call" by simp
    show ?thesis
      unfolding handle_call_retryable[OF nl nm r ok] fst_conv snd_conv
      by (simp add: scheduleRetry_count scheduleRetry_queue_length fl)
  qed
  then show "(\<exists>r. calls (fst (handle_call e req call s)) (CallSid req) = Some r \<and> retry_scheduled r = Some 1)"
    and "count_inserts (snd (handle_call e req call s)) =
           (if currentAttemptNumber call < MAX_TOTAL_ATTEMPTS - 1 \<and> truthy (safeTo call)
               \<and> truthy (safeContactId call) then 1 else 0)"
    and "length (call_queue (fst (handle_call e req call s))) =
           length (call_queue s) +
           (if currentAttemptNumber call < MAX_TOTAL_ATTEMPTS - 1 \<and> truthy (safeTo call)
               \<and> truthy (safeContactId call) \<and> db_ok e InsertQueue then 1 else 0)"
    and "\<exists>msg. last (snd (handle_call e req call s)) = Reply 200 msg"
    by blast+
qed

text \<open>
  C4, on the code. The row of the call exists, its latch is unset and the lookup finds
  it. If the store accepts the update of the flag, a status \<open>no-answer\<close>, \<open>busy\<close> or
  \<open>failed\<close>, or a status \<open>completed\<close> or \<open>canceled\<close> with a machine classification (from
  the callback or from the row), sets \<open>retry_scheduled\<close> to 1 and calls the retry
  scheduler once: exactly one insert is issued when the retry count of the row is below
  9 and the row has a destination and a contact id, and none otherwise. A status
  \<open>completed\<close> without a machine classification is answered 200 with the positive
  notification, no insert, the queue and the latch as they were.
\<close>

theorem status_classification:
  assumes "CallSid req \<noteq> []" and "calls s (CallSid req) = Some call"
    and "\<not> truthy_num (retry_scheduled call)" and "db_ok e GetCall"
  shows "(db_ok e UpdateRetryScheduled
          \<and> (CallStatus req \<in> {''no-answer'', ''busy'', ''failed''}
             \<or> (CallStatus req \<in> {''completed'', ''canceled''} \<and> isMachineDetected req call))
          \<longrightarrow> (\<exists>r. calls (fst (call_status e req s)) (CallSid req) = Some r
                     \<and> retry_scheduled r = Some 1)
              \<and> count_inserts (snd (call_status e req s)) =
                  (if currentAttemptNumber call < MAX_TOTAL_ATTEMPTS - 1 \<and> truthy (safeTo call)
                      \<and> truthy (safeContactId call) then 1 else 0)
              \<and> length (call_queue (fst (call_status e req s))) =
                  length (call_queue s) +
                  (if currentAttemptNumber call < MAX_TOTAL_ATTEMPTS - 1 \<and> truthy (safeTo call)
                      \<and> truthy (safeContactId call) \<and> db_ok e InsertQueue then 1 else 0)
              \<and> (\<exists>msg. last (snd (call_status e req s)) = Reply 200 msg))
         \<and> (CallStatus req = ''completed'' \<and> \<not> isMachineDetected req call
          \<longrightarrow> count_inserts (snd (call_status e req s)) = 0
              \<and> call_queue (fst (call_status e req s)) = call_queue s
              \<and> \<not> latched (CallSid req) (fst (call_status e req s))
              \<and> Notify Positive ''Outgoing Call: Successful Human Connection''
                   \<in> set (snd (call_status e req s))
              \<and> last (snd (call_status e req s)) = Reply 200 ''OK. Human answered, no retry.'')"
proof -
  have g: "getCallData (CallSid req) s = Some call"
    using assms(1,2) by (simp add: getCallData_def)
  note cs = call_status_found[OF assms(4) g]
  have nl0: "\<not> latched (CallSid req) s"
    using assms(2,3) by (simp add: latched_def)
  show ?thesis
  proof (intro conjI impI)
    assume a: "db_ok e UpdateRetryScheduled
          \<and> (CallStatus req \<in> {''no-answer'', ''busy'', ''failed''}
             \<or> (CallStatus req \<in> {''completed'', ''canceled''} \<and> isMachineDetected req call))"
    then have ok: "db_ok e UpdateRetryScheduled" and rf: "isRetryableFailure req call \<or> machine_midcall req call"
      using retryable_cases[of req call] by auto
    note hp = handle_call_retry_paths[OF assms(3) ok rf assms(1,2), of ]
    show "\<exists>r. calls (fst (call_status e req s)) (CallSid req) = Some r \<and> retry_scheduled r = Some 1"
      using hp(1) by (simp add: cs)
    show "count_inserts (snd (call_status e req s)) =
                  (if currentAttemptNumber call < MAX_TOTAL_ATTEMPTS - 1 \<and> truthy (safeTo call)
                      \<and> truthy (safeContactId call) then 1 else 0)"
      using hp(2) by (simp add: cs)
    show "length (call_queue (fst (call_status e req s))) =
                  length (call_queue s) +
                  (if currentAttemptNumber call < MAX_TOTAL_ATTEMPTS - 1 \<and> truthy (safeTo call)
                      \<and> truthy (safeContactId call) \<and> db_ok e InsertQueue then 1 else 0)"
      using hp(3) by (simp add: cs)
    from hp(4) obtain msg where m: "last (snd (handle_call e req call s)) = Reply 200 msg" by blast
    have ne: "snd (handle_call e req call s) \<noteq> []"
    proof (cases "machine_midcall req call")
      case True
      then show ?thesis by (simp add: handle_call_machine[OF assms(3)])
    next
      case False
      with rf show ?thesis by (simp add: handle_call_retryable[OF assms(3) False _ ok])
    qed
    show "\<exists>msg. last (snd (call_status e req s)) = Reply 200 msg"
      using m ne by (simp add: cs)
  next
    assume h: "CallStatus req = ''completed'' \<and> \<not> isMachineDetected req call"
    then have hc: "handle_call e req call s =
     (fst (store_answered_by e req call s),
      snd (snd (store_answered_by e req call s))
      @ [Notify Positive ''Outgoing Call: Successful Human Connection'',
         Reply 200 ''OK. Human answered, no retry.''])"
      using handle_call_human[OF assms(3), of req e s] by simp
    show "count_inserts (snd (call_status e req s)) = 0" by (simp add: cs hc)
    show "call_queue (fst (call_status e req s)) = call_queue s" by (simp add: cs hc)
    show "\<not> latched (CallSid req) (fst (call_status e req s))" using nl0 by (simp add: cs hc)
    show "Notify Positive ''Outgoing Call: Successful Human Connection'' \<in> set (snd (call_status e req s))"
      by (simp add: cs hc)
    show "last (snd (call_status e req s)) = Reply 200 ''OK. Human answered, no retry.''"
      by (simp add: cs hc)
  qed
qed

theorem status_classification_witness:
  "CallSid (callback ''CA1'' ''busy'' None) \<noteq> []
   \<and> calls (store_CA1 0) (CallSid (callback ''CA1'' ''busy'' None)) = Some (mario 0)
   \<and> \<not> truthy_num (retry_scheduled (mario 0))
   \<and> db_ok env_ok GetCall \<and> db_ok env_ok UpdateRetryScheduled
   \<and> CallStatus (callback ''CA1'' ''busy'' None) \<in> {''no-answer'', ''busy'', ''failed''}
   \<and> count_inserts (snd (call_status env_ok (callback ''CA1'' ''busy'' None) (store_CA1 0))) = 1
   \<and> length (call_queue (fst (call_status env_ok (callback ''CA1'' ''busy'' None) (store_CA1 0)))) = 1
   \<and> CallStatus (callback ''CA1'' ''completed'' (Some ''human'')) = ''completed''
   \<and> \<not> isMachineDetected (callback ''CA1'' ''completed'' (Some ''human'')) (mario 0)
   \<and> count_inserts
        (snd (call_status env_ok (callback ''CA1'' ''completed'' (Some ''human'')) (store_CA1 0))) = 0
   \<and> last (snd (call_status env_ok (callback ''CA1'' ''completed'' (Some ''human'')) (store_CA1 0)))
       = Reply 200 ''OK. Human answered, no retry.''"
proof -
  have h: "CallSid (callback ''CA1'' ''busy'' None) \<noteq> []"
    "calls (store_CA1 0) (CallSid (callback ''CA1'' ''busy'' None)) = Some (mario 0)"
    "\<not> truthy_num (retry_scheduled (mario 0))" "db_ok env_ok GetCall"
    by (simp_all add: callback_def store_CA1_def mario_def truthy_num_def env_ok_def)
  have h': "CallSid (callback ''CA1'' ''completed'' (Some ''human'')) \<noteq> []"
    "calls (store_CA1 0) (CallSid (callback ''CA1'' ''completed'' (Some ''human''))) = Some (mario 0)"
    by (simp_all add: callback_def store_CA1_def)
  have b: "db_ok env_ok UpdateRetryScheduled" "db_ok env_ok InsertQueue"
    "CallStatus (callback ''CA1'' ''busy'' None) \<in> {''no-answer'', ''busy'', ''failed''}"
    by (simp_all add: callback_def env_ok_def)
  have c: "currentAttemptNumber (mario 0) < MAX_TOTAL_ATTEMPTS - 1" "truthy (safeTo (mario 0))"
    "truthy (safeContactId (mario 0))" "call_queue (store_CA1 0) = []"
    by (simp_all add: currentAttemptNumber_def MAX_TOTAL_ATTEMPTS_def mario_def safeTo_def
        safeContactId_def js_or_def truthy_simps store_CA1_def)
  have m: "CallStatus (callback ''CA1'' ''completed'' (Some ''human'')) = ''completed''"
    "\<not> isMachineDetected (callback ''CA1'' ''completed'' (Some ''human'')) (mario 0)"
    by (simp_all add: callback_def isMachineDetected_def is_machine_def mario_def toLowerCase_def
        lower_char_def machineDetectionStatuses_def)
  note r = status_classification [OF h, THEN conjunct1, THEN mp, OF conjI [OF b(1) disjI1 [OF b(3)]]]
  from r b(2) c
  have "count_inserts (snd (call_status env_ok (callback ''CA1'' ''busy'' None) (store_CA1 0))) = 1
   \<and> length (call_queue (fst (call_status env_ok (callback ''CA1'' ''busy'' None) (store_CA1 0)))) = 1"
    by simp
  moreover
  note n = status_classification [OF h' h(3,4), THEN conjunct2, THEN mp, OF conjI [OF m]]
  from n
  have "count_inserts
        (snd (call_status env_ok (callback ''CA1'' ''completed'' (Some ''human'')) (store_CA1 0))) = 0
   \<and> last (snd (call_status env_ok (callback ''CA1'' ''completed'' (Some ''human'')) (store_CA1 0)))
       = Reply 200 ''OK. Human answered, no retry.''"
    by blast
  ultimately show ?thesis using h b m by blast
qed

text \<open>
  C4 as stated promises exactly one retry for every such callback. The call that was
  attempt 9 ends \<open>failed\<close>: the flag is set, nothing is inserted, and the notification
  "Max Attempts Reached" goes out.
\<close>

theorem exhausted_ladder_counterexample:
  "getCallData ''CA1'' (store_CA1 9) = Some (mario 9)
   \<and> \<not> truthy_num (retry_scheduled (mario 9))
   \<and> snd (call_status env_ok (callback ''CA1'' ''failed'' None) (store_CA1 9)) =
       [DbGetCall ''CA1'', DbUpdateCall ''CA1'' [RetryScheduledF 1],
        Notify NonFatal ''Outgoing Call: Max Attempts Reached'',
        Reply 200 ''OK. Retryable failure, retry scheduled.'']
   \<and> call_queue (fst (call_status env_ok (callback ''CA1'' ''failed'' None) (store_CA1 9))) = []
   \<and> count_inserts (snd (call_status env_ok (callback ''CA1'' ''failed'' None) (store_CA1 9))) = 0"
  by code_simp

section \<open>The processor and a queue entry that is no longer pending\<close>

lemma mark_processing_no_change:
  assumes "mark_processing_changes qid s = 0"
  shows "mark_processing now qid s = s"
proof -
  from assms have "\<forall>r \<in> set (call_queue s). \<not> (q_queue_id r = qid \<and> q_status r = ''pending'')"
    by (simp add: mark_processing_changes_def filter_empty_conv)
  then have "map (\<lambda>r. if q_queue_id r = qid \<and> q_status r = ''pending''
                    then r\<lparr> q_status := ''processing'', q_last_attempt_at := Some now \<rparr>
                    else r) (call_queue s) = call_queue s"
    by (intro map_idI) auto
  then show ?thesis by (simp add: mark_processing_def)
qed

lemma process_job_creates_call:
  "db_ok e MarkProcessing \<Longrightarrow>
   CarrierCreate (q_call_options_json callJob) \<in> set (snd (process_job e callJob s))"
  by (simp add: process_job_def Let_def fail_job_def split: option.splits)

text \<open>
  C6, on the code. The guarded update is issued, and when it changes no row (the entry
  is no longer pending) the store stays as it is; the round does not read the number of
  changed rows and creates the carrier call all the same.
\<close>

theorem process_job_dials_without_change:
  assumes "db_ok e MarkProcessing" and "mark_processing_changes (q_queue_id callJob) s = 0"
  shows "hd (snd (process_job e callJob s)) = DbMarkProcessing (q_queue_id callJob)
         \<and> mark_processing (clock e) (q_queue_id callJob) s = s
         \<and> CarrierCreate (q_call_options_json callJob) \<in> set (snd (process_job e callJob s))"
  using assms mark_processing_no_change [OF assms(2)] process_job_creates_call [OF assms(1)]
  by (simp add: process_job_def Let_def fail_job_def split: option.splits)

text \<open>
  The processor selects the entry of Mario while it is pending. When the round for it
  runs, the entry has been taken (status \<open>processing\<close>), or it has been dialled and
  deleted by an earlier round: the guarded update changes no row, and the call is
  created again.
\<close>

theorem taken_job_is_dialled_again:
  "select_pending (clock env_ok) 3 queued_store = [first_job]
   \<and> map q_status (call_queue taken_store) = [''processing'']
   \<and> mark_processing_changes (q_queue_id first_job) taken_store = 0
   \<and> CarrierCreate (q_call_options_json first_job)
        \<in> set (snd (process_job env_ok first_job taken_store))
   \<and> snd (process_job env_ok first_job taken_store) =
       [DbMarkProcessing 1, CarrierCreate (q_call_options_json first_job),
        DbSetCall ''CA2'' (initial_call_data env_ok first_job), DbGetCall ''CA2'',
        DbDeleteQueue 1]
   \<and> call_queue (fst (process_job env_ok first_job queued_store)) = []
   \<and> snd (process_job env_ok first_job (fst (process_job env_ok first_job queued_store))) =
       [DbMarkProcessing 1, CarrierCreate (q_call_options_json first_job),
        DbSetCall ''CA2'' (initial_call_data env_ok first_job), DbGetCall ''CA2'',
        DbDeleteQueue 1]"
proof -
  have ok: "db_ok env_ok MarkProcessing" by (simp add: env_ok_def)
  have z: "mark_processing_changes (q_queue_id first_job) taken_store = 0"
    unfolding taken_store_def queued_store_def first_job_def by code_simp
  have rest: "select_pending (clock env_ok) 3 queued_store = [first_job]
   \<and> map q_status (call_queue taken_store) = [''processing'']
   \<and> snd (process_job env_ok first_job taken_store) =
       [DbMarkProcessing 1, CarrierCreate (q_call_options_json first_job),
        DbSetCall ''CA2'' (initial_call_data env_ok first_job), DbGetCall ''CA2'',
        DbDeleteQueue 1]
   \<and> call_queue (fst (process_job env_ok first_job queued_store)) = []
   \<and> snd (process_job env_ok first_job (fst (process_job env_ok first_job queued_store))) =
       [DbMarkProcessing 1, CarrierCreate (q_call_options_json first_job),
        DbSetCall ''CA2'' (initial_call_data env_ok first_job), DbGetCall ''CA2'',
        DbDeleteQueue 1]"
    unfolding taken_store_def queued_store_def first_job_def by code_simp
  from process_job_dials_without_change [OF ok z]
  have "CarrierCreate (q_call_options_json first_job)
        \<in> set (snd (process_job env_ok first_job taken_store))"
    by blast
  with z rest show ?thesis by blast
qed

section \<open>The first-attempt timestamp of a sequence\<close>

lemma process_job_set_call:
  "DbSetCall sid d \<in> set (snd (process_job e q s)) \<Longrightarrow> d = initial_call_data e q"
  by (auto simp: process_job_def Let_def fail_job_def split: option.splits if_splits)

lemma scheduleRetry_insert_row:
  "DbInsertQueue q \<in> set (snd (scheduleRetry e r sid opts s)) \<Longrightarrow>
   q = retry_row e r opts (Suc (queue_seq s))"
  by (auto simp: scheduleRetry_def Let_def split: if_splits)

lemma outbound_call_insert_row:
  "DbInsertQueue q \<in> set (snd (outbound_call e b s)) \<Longrightarrow>
   q_first_attempt_timestamp q = Some (clock e) \<and> q_retry_stage q = 0"
  by (auto simp: outbound_call_def Let_def initial_row_def
      split: signed_url_result.splits if_splits)

lemma first_attempt_apply_field [simp]:
  "first_attempt_timestamp (apply_field f r) = first_attempt_timestamp r"
  by (cases f) simp_all

lemma first_attempt_call_row_of [simp]:
  "first_attempt_timestamp (call_row_of d) = first_attempt_timestamp d"
  by (simp add: call_row_of_def)

lemma first_attempt_initial [simp]:
  "first_attempt_timestamp (initial_call_data e q) = q_first_attempt_timestamp q"
  by (simp add: initial_call_data_def)

lemma sequence_first_attempt:
  assumes "q_first_attempt_timestamp first = Some t"
  shows "seq_entry first q \<Longrightarrow> q_first_attempt_timestamp q = Some t"
    and "seq_call first r \<Longrightarrow> first_attempt_timestamp r = Some t"
proof (induction rule: seq_entry_seq_call.inducts)
  case seq_first
  show ?case by (rule assms)
next
  case (seq_queue_update q i st la le)
  then show ?case by simp
next
  case (seq_dispatch q sid d e s)
  then show ?case by (auto dest: process_job_set_call)
next
  case (seq_call_update r f)
  then show ?case by simp
next
  case (seq_retry r q e sid opts s)
  then show ?case by (auto dest: scheduleRetry_insert_row simp: retry_row_first_attempt)
qed

text \<open>
  C7. The first entry of a sequence is the one the ingress inserts; its
  \<open>first_attempt_timestamp\<close> is the clock at that moment. Every queue entry and every row
  of \<open>calls\<close> that descends from it (dispatch by the processor, patches of the row,
  status updates of the entry, inserts by \<open>scheduleRetry\<close>) carries that same timestamp.
\<close>

theorem first_attempt_timestamp_constant:
  assumes "DbInsertQueue first \<in> set (snd (outbound_call e0 b s0))"
  shows "q_first_attempt_timestamp first = Some (clock e0)
         \<and> (\<forall>q. seq_entry first q \<longrightarrow> q_first_attempt_timestamp q = Some (clock e0))
         \<and> (\<forall>r. seq_call first r \<longrightarrow> first_attempt_timestamp r = Some (clock e0))"
  using outbound_call_insert_row[OF assms] sequence_first_attempt[of first "clock e0"]
  by blast

theorem first_attempt_timestamp_constant_witness:
  "DbInsertQueue first_job \<in> set (snd (outbound_call env_ok mario_body empty_store))
   \<and> q_first_attempt_timestamp first_job = Some (clock env_ok)
   \<and> seq_call first_job (call_row_of (initial_call_data env_ok first_job))
   \<and> first_attempt_timestamp (call_row_of (initial_call_data env_ok first_job)) = Some (clock env_ok)
   \<and> seq_entry first_job
        (retry_row env_ok (call_row_of (initial_call_data env_ok first_job)) no_force 2)
   \<and> q_first_attempt_timestamp
        (retry_row env_ok (call_row_of (initial_call_data env_ok first_job)) no_force 2)
       = Some (clock env_ok)"
proof -
  have h: "DbInsertQueue first_job \<in> set (snd (outbound_call env_ok mario_body empty_store))"
    unfolding first_job_def by code_simp
  have d: "DbSetCall ''CA2'' (initial_call_data env_ok first_job)
             \<in> set (snd (process_job env_ok first_job queued_store))"
    unfolding first_job_def queued_store_def by code_simp
  have c: "seq_call first_job (call_row_of (initial_call_data env_ok first_job))"
    by (rule seq_dispatch[OF seq_first d])
  have i: "DbInsertQueue (retry_row env_ok (call_row_of (initial_call_data env_ok first_job)) no_force 2)
             \<in> set (snd (scheduleRetry env_ok (call_row_of (initial_call_data env_ok first_job)) ''CA2''
                        no_force dialled_store))"
    unfolding first_job_def dialled_store_def queued_store_def by code_simp
  have q: "seq_entry first_job
        (retry_row env_ok (call_row_of (initial_call_data env_ok first_job)) no_force 2)"
    by (rule seq_retry[OF c i])
  from first_attempt_timestamp_constant [OF h] h c q show ?thesis by blast
qed

section \<open>Closing the bridge\<close>

text \<open>
  C9, on the code. While the agent socket is open, a \<open>stop\<close> message or the close of
  the carrier media socket closes it. The close of the agent socket, with whatever
  close code, leaves the carrier media socket as it is: its state is unchanged and
  nothing is sent on it.
\<close>

theorem carrier_end_closes_agent:
  "(elevenLabsWs st = Some OPEN \<longrightarrow>
      bridge_step st (TwilioMessage Stop) = (st\<lparr> elevenLabsWs := Some CLOSING \<rparr>, [AgentClose])
      \<and> bridge_step st TwilioClose =
          (st\<lparr> ws := CLOSED, elevenLabsWs := Some CLOSING \<rparr>, [AgentClose]))
   \<and> ws (fst (bridge_step st (AgentClosed code))) = ws st
   \<and> filter on_carrier_socket (snd (bridge_step st (AgentClosed code))) = []"
  by (simp add: close_agent_if_open_def)

theorem carrier_end_closes_agent_witness:
  "elevenLabsWs live_bridge = Some OPEN
   \<and> snd (bridge_step live_bridge (TwilioMessage Stop)) = [AgentClose]
   \<and> elevenLabsWs (fst (bridge_step live_bridge (TwilioMessage Stop))) = Some CLOSING
   \<and> snd (bridge_step live_bridge TwilioClose) = [AgentClose]
   \<and> elevenLabsWs (fst (bridge_step live_bridge TwilioClose)) = Some CLOSING
   \<and> ws (fst (bridge_step live_bridge (AgentClosed 1005))) = OPEN"
proof -
  have h: "elevenLabsWs live_bridge = Some OPEN" "ws live_bridge = OPEN"
    by (simp_all add: live_bridge_def)
  from carrier_end_closes_agent [of live_bridge 1005] h show ?thesis by simp
qed

text \<open>
  C9 as stated has the close of the agent socket close the carrier media socket. With
  both sockets open the agent socket closes with code 1006: the carrier media socket
  stays open.
\<close>

theorem agent_close_leaves_carrier_open_counterexample:
  "ws live_bridge = OPEN \<and> elevenLabsWs live_bridge = Some OPEN
   \<and> bridge_step live_bridge (AgentClosed 1006) =
       (live_bridge\<lparr> elevenLabsWs := Some CLOSED \<rparr>,
        [BridgeNotify NonFatal ''ElevenLabs: WebSocket Unexpected Close''])
   \<and> ws (fst (bridge_step live_bridge (AgentClosed 1006))) = OPEN"
  by (simp add: live_bridge_def)

end
